theory Spec2Isabelle
  imports Complex_Main "HOL-Library.Char_ord" "HOL-Library.List_Lexorder"
begin

section \<open>Values\<close>

text \<open>
  A Python \<^verbatim>\<open>str\<close> is a \<^typ>\<open>string\<close>: one \<^typ>\<open>char\<close> per code point, for the
  code points below 256. Text with higher code points is outside this model.

  A Python \<^verbatim>\<open>float\<close> that came out of \<^verbatim>\<open>float(s)\<close> is the exact decimal value
  of the literal, or one of the three special values. The rounding of that value to
  the nearest double (the identity on integers below \<open>2 ^ 53\<close>) is not modelled.
\<close>

datatype pyfloat = Finite rat | PosInf | NegInf | NaN

text \<open>The values \<^verbatim>\<open>json.loads\<close> returns. A dict keeps its items in insertion order.\<close>

datatype json =
    JNull
  | JBool bool
  | JInt int
  | JFloat pyfloat
  | JStr string
  | JArr "json list"
  | JObj "(string \<times> json) list"

section \<open>Strings\<close>

text \<open>The decimal digits \<^verbatim>\<open>\d\<close> and \<^verbatim>\<open>int\<close> accept among the code points below 256: 0 to 9.\<close>

definition is_digit :: "char \<Rightarrow> bool" where
  "is_digit c = (let n = (of_char c :: nat) in 48 \<le> n \<and> n \<le> 57)"

text \<open>\<^verbatim>\<open>str.isspace\<close> below 256, the characters \<^verbatim>\<open>str.strip()\<close> removes.\<close>

definition isspace :: "char \<Rightarrow> bool" where
  "isspace c = (let n = (of_char c :: nat) in
     (9 \<le> n \<and> n \<le> 13) \<or> (28 \<le> n \<and> n \<le> 32) \<or> n = 133 \<or> n = 160)"

text \<open>
  The white space \<^verbatim>\<open>int(s)\<close> and \<^verbatim>\<open>float(s)\<close> skip at both ends: the ASCII white space
  and the two code points 0x85 and 0xA0, but not the separators 0x1C to 0x1F.
\<close>

definition Py_ISSPACE :: "char \<Rightarrow> bool" where
  "Py_ISSPACE c = (let n = (of_char c :: nat) in
     (9 \<le> n \<and> n \<le> 13) \<or> n = 32 \<or> n = 133 \<or> n = 160)"

text \<open>\<^verbatim>\<open>s.strip()\<close> is \<open>strip_with isspace s\<close>.\<close>

definition strip_with :: "(char \<Rightarrow> bool) \<Rightarrow> string \<Rightarrow> string" where
  "strip_with sp s = rev (dropWhile sp (rev (dropWhile sp s)))"

text \<open>\<^verbatim>\<open>s.lower()\<close> below 256: A to Z and the accented capitals 0xC0 to 0xDE but 0xD7.\<close>

definition lower_char :: "char \<Rightarrow> char" where
  "lower_char c = (let n = (of_char c :: nat) in
     if (65 \<le> n \<and> n \<le> 90) \<or> (192 \<le> n \<and> n \<le> 222 \<and> n \<noteq> 215)
     then char_of (n + 32) else c)"

definition lower :: "string \<Rightarrow> string" where
  "lower s = map lower_char s"

text \<open>\<^verbatim>\<open>s.replace(old, new)\<close>: the occurrences of \<open>old\<close> from the left, without overlap.\<close>

function replace :: "string \<Rightarrow> string \<Rightarrow> string \<Rightarrow> string" where
  "replace old new [] = (if old = [] then new else [])"
| "replace old new (c # cs) =
     (if old = [] then new @ c # replace old new cs
      else if take (length old) (c # cs) = old
        then new @ replace old new (drop (length old) (c # cs))
      else c # replace old new cs)"
  by pat_completeness auto
termination
  by (relation "measure (\<lambda>(old, new, s). length s)") (auto simp: neq_Nil_conv)

subsection \<open>Numeric parsing\<close>

definition digit_val :: "char \<Rightarrow> nat" where
  "digit_val c = of_char c - 48"

definition decimal :: "string \<Rightarrow> nat" where
  "decimal ds = foldl (\<lambda>n c. 10 * n + digit_val c) 0 ds"

text \<open>
  The digit part of an integer literal: digits, with single underscores between them.
  \<open>prev\<close> is the character before; the underscore stands for the start.
\<close>

fun int_digits :: "char \<Rightarrow> string \<Rightarrow> string option" where
  "int_digits prev [] = (if prev = CHR ''_'' then None else Some [])"
| "int_digits prev (c # cs) =
     (if is_digit c then map_option ((#) c) (int_digits c cs)
      else if c = CHR ''_'' \<and> prev \<noteq> CHR ''_'' then int_digits c cs
      else None)"

text \<open>
  \<^verbatim>\<open>sys.get_int_max_str_digits()\<close>, by default: \<^verbatim>\<open>int\<close> raises ValueError on a literal
  with more digits.
\<close>

definition int_max_str_digits :: nat where
  "int_max_str_digits = 4300"

definition split_sign :: "string \<Rightarrow> bool \<times> string" where
  "split_sign s =
     (case s of
        [] \<Rightarrow> (False, [])
      | c # cs \<Rightarrow> if c = CHR ''-'' then (True, cs) else if c = CHR ''+'' then (False, cs) else (False, s))"

text \<open>\<^verbatim>\<open>int(raw)\<close> on a string; \<open>None\<close> is ValueError.\<close>

definition py_int :: "string \<Rightarrow> int option" where
  "py_int raw =
     (case split_sign (strip_with Py_ISSPACE raw) of (neg, body) \<Rightarrow>
        (case int_digits (CHR ''_'') body of
           None \<Rightarrow> None
         | Some ds \<Rightarrow>
             if int_max_str_digits < length ds then None
             else Some (if neg then - int (decimal ds) else int (decimal ds))))"

text \<open>
  \<^verbatim>\<open>parse_minutes\<close>: \<^verbatim>\<open>int(raw)\<close> first, and when it raises, the group of
  \<^verbatim>\<open>re.match(r'^(\d+)', raw)\<close>, converted in its own \<^verbatim>\<open>try\<close>.
\<close>

definition parse_minutes :: "string \<Rightarrow> int option" where
  "parse_minutes raw =
     (if raw = [] then None
      else case py_int raw of
        Some n \<Rightarrow> Some n
      | None \<Rightarrow>
          (let group1 = takeWhile is_digit raw
           in if group1 \<noteq> [] then py_int group1 else None))"

text \<open>
  \<^verbatim>\<open>float(s)\<close> removes underscores first, each of which must stand between two digits;
  \<open>prev\<close> is the character before (NUL at the start).
\<close>

fun remove_underscores :: "char \<Rightarrow> string \<Rightarrow> string option" where
  "remove_underscores prev [] = (if prev = CHR ''_'' then None else Some [])"
| "remove_underscores prev (c # cs) =
     (if c = CHR ''_'' then (if is_digit prev then remove_underscores c cs else None)
      else if prev = CHR ''_'' \<and> \<not> is_digit c then None
      else map_option ((#) c) (remove_underscores c cs))"

definition exponent :: "string \<Rightarrow> int option" where
  "exponent s =
     (case split_sign s of (neg, ds) \<Rightarrow>
        if ds \<noteq> [] \<and> list_all is_digit ds
        then Some (if neg then - int (decimal ds) else int (decimal ds))
        else None)"

definition scale10 :: "rat \<Rightarrow> int \<Rightarrow> rat" where
  "scale10 m e = (if 0 \<le> e then m * 10 ^ nat e else m / 10 ^ nat (- e))"

text \<open>
  A decimal literal without sign: digits, an optional point and digits, at least one
  digit in all, and an optional exponent that must reach the end of the text.
\<close>

definition float_number :: "string \<Rightarrow> rat option" where
  "float_number s =
     (let ip = takeWhile is_digit s;
          r1 = dropWhile is_digit s;
          fp = (case r1 of [] \<Rightarrow> [] | c # t \<Rightarrow> if c = CHR ''.'' then takeWhile is_digit t else []);
          r2 = (case r1 of [] \<Rightarrow> [] | c # t \<Rightarrow> if c = CHR ''.'' then dropWhile is_digit t else r1);
          m = of_nat (decimal (ip @ fp)) / 10 ^ length fp
      in if ip = [] \<and> fp = [] then None
         else case r2 of
           [] \<Rightarrow> Some m
         | c # t \<Rightarrow>
             if c = CHR ''e'' \<or> c = CHR ''E''
             then map_option (scale10 m) (exponent t)
             else None)"

text \<open>\<^verbatim>\<open>float(raw)\<close> on a string; \<open>None\<close> is ValueError.\<close>

definition py_float :: "string \<Rightarrow> pyfloat option" where
  "py_float raw =
     (case remove_underscores (CHR 0x00) raw of
        None \<Rightarrow> None
      | Some t \<Rightarrow>
          (case split_sign (strip_with Py_ISSPACE t) of (neg, body) \<Rightarrow>
             if lower body = ''inf'' \<or> lower body = ''infinity''
               then Some (if neg then NegInf else PosInf)
             else if lower body = ''nan'' then Some NaN
             else map_option (\<lambda>m. Finite (if neg then - m else m)) (float_number body)))"

text \<open>\<^verbatim>\<open>parse_float\<close>; the argument is \<^verbatim>\<open>None\<close> when the cell is missing.\<close>

definition parse_float :: "string option \<Rightarrow> pyfloat option" where
  "parse_float raw =
     (case raw of
        None \<Rightarrow> None
      | Some r \<Rightarrow>
          (let s = strip_with isspace r
           in if s = [] \<or> s = ''-'' then None
              else case py_float s of
                Some v \<Rightarrow> Some v
              | None \<Rightarrow> py_float (replace '','' [] s)))"

subsection \<open>Substrings\<close>

text \<open>
  \<^verbatim>\<open>sub in s\<close>, \<^verbatim>\<open>s.startswith(pre)\<close> and \<^verbatim>\<open>s.endswith(suf)\<close>.
\<close>

fun contains :: "string \<Rightarrow> string \<Rightarrow> bool" where
  "contains sub [] = (sub = [])"
| "contains sub (c # cs) = (take (length sub) (c # cs) = sub \<or> contains sub cs)"

definition startswith :: "string \<Rightarrow> string \<Rightarrow> bool" where
  "startswith s pre = (take (length pre) s = pre)"

definition endswith :: "string \<Rightarrow> string \<Rightarrow> bool" where
  "endswith s suf = (length suf \<le> length s \<and> drop (length s - length suf) s = suf)"

section \<open>The document tree\<close>

text \<open>
  The tree that \<^verbatim>\<open>BeautifulSoup(html, 'html.parser')\<close> returns. A tag has its name, its
  \<^verbatim>\<open>class\<close> attribute (the only multi-valued attribute read here: the list of its
  tokens, \<open>None\<close> when the tag has none), its other attributes and its children; the
  soup itself is a tag named \<^verbatim>\<open>[document]\<close>. A \<^verbatim>\<open>NavigableString\<close> is text; a
  \<^verbatim>\<open>Comment\<close> holds the text between the comment marks. The other special strings
  (doctype, declarations) are read by no function here and are left out. A tag is always
  true in a condition, so \<^verbatim>\<open>if not cell\<close> is the test for \<open>None\<close>.

  \<open>descendants\<close> is the document order; \<^verbatim>\<open>find_all(name)\<close> filters it,
  \<^verbatim>\<open>find_all(name, recursive=False)\<close> filters the children, \<^verbatim>\<open>find\<close> takes the first
  match. \<open>find_attrs n k v\<close> is \<^verbatim>\<open>find(n, attrs={k: v})\<close> and \<open>find_all_class n c\<close> is
  \<^verbatim>\<open>find_all(n, class_=c)\<close>, which matches a tag when \<open>c\<close> is one of its class tokens.
  \<^verbatim>\<open>get_text(strip=True)\<close> joins the stripped, non-empty text strings below a tag;
  comments are not text.
\<close>

datatype node =
    Tag (tag_name: string) (tag_class: "string list option")
        (tag_attrs: "(string \<times> string) list") (tag_contents: "node list")
  | NavigableString string
  | Comment string

fun descendants :: "node \<Rightarrow> node list" where
  "descendants (Tag n c a kids) = concat (map (\<lambda>k. k # descendants k) kids)"
| "descendants (NavigableString s) = []"
| "descendants (Comment s) = []"

definition is_tag :: "string \<Rightarrow> node \<Rightarrow> bool" where
  "is_tag n e = (case e of Tag m _ _ _ \<Rightarrow> m = n | _ \<Rightarrow> False)"

definition find_all :: "string \<Rightarrow> node \<Rightarrow> node list" where
  "find_all n e = filter (is_tag n) (descendants e)"

definition find_all_children :: "string \<Rightarrow> node \<Rightarrow> node list" where
  "find_all_children n e = (case e of Tag _ _ _ kids \<Rightarrow> filter (is_tag n) kids | _ \<Rightarrow> [])"

definition find :: "string \<Rightarrow> node \<Rightarrow> node option" where
  "find n e = (case find_all n e of [] \<Rightarrow> None | x # _ \<Rightarrow> Some x)"

definition get_attr :: "node \<Rightarrow> string \<Rightarrow> string option" where
  "get_attr e k = (case e of Tag _ _ a _ \<Rightarrow> map_of a k | _ \<Rightarrow> None)"

definition find_attrs :: "string \<Rightarrow> string \<Rightarrow> string \<Rightarrow> node \<Rightarrow> node option" where
  "find_attrs n k v e =
     (case filter (\<lambda>x. is_tag n x \<and> get_attr x k = Some v) (descendants e) of
        [] \<Rightarrow> None | x # _ \<Rightarrow> Some x)"

definition has_class :: "string \<Rightarrow> node \<Rightarrow> bool" where
  "has_class c e = (case e of Tag _ (Some cs) _ _ \<Rightarrow> c \<in> set cs | _ \<Rightarrow> False)"

definition find_all_class :: "string \<Rightarrow> string \<Rightarrow> node \<Rightarrow> node list" where
  "find_all_class n c e = filter (\<lambda>x. is_tag n x \<and> has_class c x) (descendants e)"

definition all_strings :: "node \<Rightarrow> string list" where
  "all_strings e = concat (map (\<lambda>x. case x of NavigableString s \<Rightarrow> [s] | _ \<Rightarrow> []) (descendants e))"

definition get_text :: "node \<Rightarrow> string" where
  "get_text e = concat (all_strings e)"

definition get_text_strip :: "node \<Rightarrow> string" where
  "get_text_strip e = concat (filter (\<lambda>s. s \<noteq> []) (map (strip_with isspace) (all_strings e)))"

definition comments :: "node \<Rightarrow> string list" where
  "comments e = concat (map (\<lambda>x. case x of Comment s \<Rightarrow> [s] | _ \<Rightarrow> []) (descendants e))"

section \<open>Extraction of appearance rows\<close>

record AppearanceRow =
  matchId :: string
  matchUrl :: string
  playerName :: string
  teamName :: string
  in_squad :: bool
  started :: bool
  minutes_played :: "int option"
  npXg :: "pyfloat option"
  xAG :: "pyfloat option"

text \<open>
  The loop of \<^verbatim>\<open>extract_player_rows_from_table\<close> over the rows of the table body, with
  \<open>started_flag\<close> and the rows collected so far.
\<close>

fun player_rows_loop ::
  "string \<Rightarrow> string \<Rightarrow> string \<Rightarrow> node list \<Rightarrow> bool \<Rightarrow> AppearanceRow list \<Rightarrow> AppearanceRow list" where
  "player_rows_loop team_name_from_caption match_id match_url [] started_flag rows = rows"
| "player_rows_loop team_name_from_caption match_id match_url (tr # trs) started_flag rows =
     (if has_class ''thead'' tr then
        player_rows_loop team_name_from_caption match_id match_url trs
          (if contains ''Bench'' (get_text_strip tr) then False else started_flag) rows
      else if get_attr tr ''data-row'' = Some ''0'' \<and> contains ''min'' (lower (get_text tr))
          \<and> contains ''player'' (lower (get_text tr)) then
        player_rows_loop team_name_from_caption match_id match_url trs started_flag rows
      else
        (case (case find_attrs ''th'' ''data-stat'' ''player'' tr of
                 Some th \<Rightarrow> Some th
               | None \<Rightarrow> find_attrs ''td'' ''data-stat'' ''player'' tr) of
           None \<Rightarrow> player_rows_loop team_name_from_caption match_id match_url trs started_flag rows
         | Some player_cell \<Rightarrow>
             (let player_name = get_text_strip player_cell in
              if player_name = [] then
                player_rows_loop team_name_from_caption match_id match_url trs started_flag rows
              else
                (let minutes_val = parse_minutes
                       (case find_attrs ''td'' ''data-stat'' ''minutes'' tr of
                          Some minutes_cell \<Rightarrow> get_text_strip minutes_cell | None \<Rightarrow> []);
                     npxg_val = parse_float
                       (map_option get_text_strip (find_attrs ''td'' ''data-stat'' ''npxg'' tr));
                     xa_val = parse_float
                       (map_option get_text_strip (find_attrs ''td'' ''data-stat'' ''xg_assist'' tr))
                 in player_rows_loop team_name_from_caption match_id match_url trs started_flag
                      (rows @ [\<lparr>matchId = match_id, matchUrl = match_url,
                                playerName = player_name, teamName = team_name_from_caption,
                                in_squad = True, started = started_flag,
                                minutes_played = minutes_val, npXg = npxg_val,
                                xAG = xa_val\<rparr>])))))"

definition extract_player_rows_from_table ::
  "node \<Rightarrow> string \<Rightarrow> string \<Rightarrow> string \<Rightarrow> AppearanceRow list" where
  "extract_player_rows_from_table table team_name_from_caption match_id match_url =
     (case find ''tbody'' table of
        None \<Rightarrow> []
      | Some tbody \<Rightarrow>
          player_rows_loop team_name_from_caption match_id match_url
            (find_all_children ''tr'' tbody) True [])"

text \<open>
  The lineup sections. \<open>is_bench_marker tr\<close> is the test
  \<^verbatim>\<open>th and 'Bench' in th.get_text(strip=True)\<close>; \<open>lineup_player_name\<close> reads the second cell
  of a row. \<open>starters_loop\<close> is the inner loop of \<^verbatim>\<open>get_lineup_starters\<close>, which breaks at
  the marker; \<open>bench_loop\<close> is the inner loop of \<^verbatim>\<open>extract_unused_subs_from_lineups\<close>,
  with \<open>seen_bench\<close>.
\<close>

definition is_bench_marker :: "node \<Rightarrow> bool" where
  "is_bench_marker tr =
     (case find ''th'' tr of Some th \<Rightarrow> contains ''Bench'' (get_text_strip th) | None \<Rightarrow> False)"

definition lineup_player_name :: "node \<Rightarrow> string" where
  "lineup_player_name td =
     (case find ''a'' td of Some a \<Rightarrow> get_text_strip a | None \<Rightarrow> get_text_strip td)"

fun starters_loop :: "node list \<Rightarrow> string set \<Rightarrow> string set" where
  "starters_loop [] starters = starters"
| "starters_loop (tr # trs) starters =
     (if is_bench_marker tr then starters
      else case find_all ''td'' tr of
        td0 # td1 # tds \<Rightarrow>
          (let name = lineup_player_name td1
           in starters_loop trs (if name \<noteq> [] then insert name starters else starters))
      | _ \<Rightarrow> starters_loop trs starters)"

fun lineup_starters_loop :: "node list \<Rightarrow> string set \<Rightarrow> string set" where
  "lineup_starters_loop [] starters = starters"
| "lineup_starters_loop (lineup_div # divs) starters =
     (case find ''table'' lineup_div of
        None \<Rightarrow> lineup_starters_loop divs starters
      | Some table \<Rightarrow> lineup_starters_loop divs (starters_loop (find_all ''tr'' table) starters))"

definition get_lineup_starters :: "node \<Rightarrow> string set" where
  "get_lineup_starters soup = lineup_starters_loop (find_all_class ''div'' ''lineup'' soup) {}"

fun bench_loop ::
  "string set \<Rightarrow> string \<Rightarrow> string \<Rightarrow> string \<Rightarrow> node list \<Rightarrow> bool \<Rightarrow> AppearanceRow list
   \<Rightarrow> AppearanceRow list" where
  "bench_loop played_players team_name match_id match_url [] seen_bench results = results"
| "bench_loop played_players team_name match_id match_url (tr # trs) seen_bench results =
     (if is_bench_marker tr then
        bench_loop played_players team_name match_id match_url trs True results
      else if \<not> seen_bench then
        bench_loop played_players team_name match_id match_url trs seen_bench results
      else case find_all ''td'' tr of
        td0 # td1 # tds \<Rightarrow>
          (let player_name = lineup_player_name td1 in
           if player_name = [] then
             bench_loop played_players team_name match_id match_url trs seen_bench results
           else if player_name \<in> played_players then
             bench_loop played_players team_name match_id match_url trs seen_bench results
           else
             bench_loop played_players team_name match_id match_url trs seen_bench
               (results @ [\<lparr>matchId = match_id, matchUrl = match_url,
                             playerName = player_name, teamName = team_name,
                             in_squad = True, started = False,
                             minutes_played = None, npXg = None, xAG = None\<rparr>]))
      | _ \<Rightarrow> bench_loop played_players team_name match_id match_url trs seen_bench results)"

text \<open>
  \<^verbatim>\<open>s.split(sep)[0]\<close>.
\<close>

definition split_head :: "char \<Rightarrow> string \<Rightarrow> string" where
  "split_head sep s = takeWhile (\<lambda>c. c \<noteq> sep) s"

fun unused_subs_loop ::
  "string set \<Rightarrow> string \<Rightarrow> string \<Rightarrow> node list \<Rightarrow> AppearanceRow list \<Rightarrow> AppearanceRow list" where
  "unused_subs_loop played_players match_id match_url [] results = results"
| "unused_subs_loop played_players match_id match_url (lineup_div # divs) results =
     (case find ''table'' lineup_div of
        None \<Rightarrow> unused_subs_loop played_players match_id match_url divs results
      | Some table \<Rightarrow>
          (case find ''th'' table of
             None \<Rightarrow> unused_subs_loop played_players match_id match_url divs results
           | Some first_th \<Rightarrow>
               (let team_header = get_text_strip first_th;
                    team_name = strip_with isspace (split_head (CHR ''('') team_header)
                in unused_subs_loop played_players match_id match_url divs
                     (bench_loop played_players team_name match_id match_url
                        (find_all ''tr'' table) False results))))"

definition extract_unused_subs_from_lineups ::
  "node \<Rightarrow> string set \<Rightarrow> string \<Rightarrow> string \<Rightarrow> AppearanceRow list" where
  "extract_unused_subs_from_lineups soup played_players match_id match_url =
     unused_subs_loop played_players match_id match_url (find_all_class ''div'' ''lineup'' soup) []"

text \<open>
  \<^verbatim>\<open>re.search(r'/matches/([a-f0-9]{8})', match_url)\<close>: the first place where the pattern
  matches; \<open>match_id_of\<close> is its group, or the empty string.
\<close>

definition is_hex_lower :: "char \<Rightarrow> bool" where
  "is_hex_lower c = (is_digit c \<or> (let n = (of_char c :: nat) in 97 \<le> n \<and> n \<le> 102))"

fun search_match_id :: "string \<Rightarrow> string option" where
  "search_match_id [] = None"
| "search_match_id (c # cs) =
     (let group1 = take 8 (drop 9 (c # cs)) in
      if take 9 (c # cs) = ''/matches/'' \<and> length group1 = 8 \<and> list_all is_hex_lower group1
      then Some group1
      else search_match_id cs)"

definition match_id_of :: "string \<Rightarrow> string" where
  "match_id_of match_url = (case search_match_id match_url of Some g \<Rightarrow> g | None \<Rightarrow> [])"

text \<open>
  \<^verbatim>\<open>extract_from_html\<close>. \<open>parse\<close> is \<^verbatim>\<open>BeautifulSoup(text, 'html.parser')\<close>, \<open>None\<close> when
  it raises: on a comment the exception is caught and the comment skipped, on the
  document itself it leaves \<^verbatim>\<open>extract_from_html\<close>. \<open>tables_loop\<close> is the loop over the
  candidate tables, with \<open>played_players\<close> and \<open>results\<close>.
\<close>

definition is_summary_table :: "node \<Rightarrow> bool" where
  "is_summary_table tbl =
     (let table_id = (case get_attr tbl ''id'' of Some i \<Rightarrow> i | None \<Rightarrow> [])
      in startswith table_id ''stats_'' \<and> endswith table_id ''_summary'')"

definition commented_tables :: "(string \<Rightarrow> node option) \<Rightarrow> node \<Rightarrow> node list" where
  "commented_tables parse soup =
     concat (map (\<lambda>text.
        if \<not> contains ''table'' text \<or> \<not> contains ''stats_'' text then []
        else case parse text of
          None \<Rightarrow> []
        | Some sub_soup \<Rightarrow> filter is_summary_table (find_all ''table'' sub_soup))
      (comments soup))"

definition candidate_tables :: "(string \<Rightarrow> node option) \<Rightarrow> node \<Rightarrow> node list" where
  "candidate_tables parse soup =
     filter is_summary_table (find_all ''table'' soup) @ commented_tables parse soup"

fun tables_loop ::
  "string \<Rightarrow> string set \<Rightarrow> node list \<Rightarrow> string set \<Rightarrow> AppearanceRow list
   \<Rightarrow> string set \<times> AppearanceRow list" where
  "tables_loop match_url starters_from_lineup [] played_players results = (played_players, results)"
| "tables_loop match_url starters_from_lineup (tbl # tbls) played_players results =
     (case find ''caption'' tbl of
        None \<Rightarrow> tables_loop match_url starters_from_lineup tbls played_players results
      | Some caption_el \<Rightarrow>
          (let caption_text = get_text_strip caption_el;
               team_name = strip_with isspace (replace ''Player Stats'' [] caption_text);
               match_id = match_id_of match_url;
               rows0 = extract_player_rows_from_table tbl team_name match_id match_url;
               rows = (if starters_from_lineup \<noteq> {}
                       then map (\<lambda>r. r\<lparr>started := playerName r \<in> starters_from_lineup\<rparr>) rows0
                       else rows0)
           in tables_loop match_url starters_from_lineup tbls
                (played_players \<union> set (map playerName rows)) (results @ rows)))"

definition extract_from_soup :: "(string \<Rightarrow> node option) \<Rightarrow> node \<Rightarrow> string \<Rightarrow> AppearanceRow list" where
  "extract_from_soup parse soup match_url =
     (case tables_loop match_url (get_lineup_starters soup) (candidate_tables parse soup) {} [] of
        (played_players, results) \<Rightarrow>
          results @ extract_unused_subs_from_lineups soup played_players
                      (match_id_of match_url) match_url)"

definition extract_from_html :: "(string \<Rightarrow> node option) \<Rightarrow> string \<Rightarrow> string \<Rightarrow> AppearanceRow list option" where
  "extract_from_html parse html match_url =
     map_option (\<lambda>soup. extract_from_soup parse soup match_url) (parse html)"

subsection \<open>Unused substitutes, as the specification words them\<close>

text \<open>
  The bench players of a lineup table: the names, when not empty, in the second cell of
  the rows after the first Bench marker row that are not marker rows themselves.
  \<open>unused_sub_row\<close> is the synthetic row, and \<open>lineup_unused_subs\<close> the rows of one lineup
  section: one for each bench player who is not among the played players, with the team
  name of the section's header before its first parenthesis.
\<close>

definition bench_listed_players :: "node \<Rightarrow> string list" where
  "bench_listed_players table =
     filter (\<lambda>name. name \<noteq> [])
       (concat (map (\<lambda>tr. case find_all ''td'' tr of
                             td0 # td1 # tds \<Rightarrow> [lineup_player_name td1]
                           | _ \<Rightarrow> [])
          (filter (\<lambda>tr. \<not> is_bench_marker tr)
             (dropWhile (\<lambda>tr. \<not> is_bench_marker tr) (find_all ''tr'' table)))))"

definition unused_sub_row :: "string \<Rightarrow> string \<Rightarrow> string \<Rightarrow> string \<Rightarrow> AppearanceRow" where
  "unused_sub_row match_id match_url team_name player_name =
     \<lparr>matchId = match_id, matchUrl = match_url, playerName = player_name, teamName = team_name,
      in_squad = True, started = False, minutes_played = None, npXg = None, xAG = None\<rparr>"

definition td_names :: "node \<Rightarrow> string list" where
  "td_names tr = (case find_all ''td'' tr of td0 # td1 # tds \<Rightarrow> [lineup_player_name td1] | _ \<Rightarrow> [])"

definition lineup_unused_subs :: "string set \<Rightarrow> string \<Rightarrow> string \<Rightarrow> node \<Rightarrow> AppearanceRow list" where
  "lineup_unused_subs played mid url lineup_div =
     (case find ''table'' lineup_div of
        None \<Rightarrow> []
      | Some table \<Rightarrow>
          (case find ''th'' table of
             None \<Rightarrow> []
           | Some first_th \<Rightarrow>
               map (unused_sub_row mid url
                      (strip_with isspace (split_head (CHR ''('') (get_text_strip first_th))))
                 (filter (\<lambda>n. n \<notin> played) (bench_listed_players table))))"

subsection \<open>An example document\<close>

text \<open>
  A match report with one lineup section (Jesus starts; Saka and Nketiah are on the
  bench), a summary table that lists Saka above its Bench divider and Jesus below it,
  and a summary table with no caption.
\<close>

definition example_stat_cell :: "string \<Rightarrow> string \<Rightarrow> node" where
  "example_stat_cell stat txt = Tag ''td'' None [(''data-stat'', stat)] [NavigableString txt]"

definition example_player_row :: "string \<Rightarrow> string \<Rightarrow> node" where
  "example_player_row player minutes =
     Tag ''tr'' None []
       [Tag ''th'' None [(''data-stat'', ''player'')] [Tag ''a'' None [] [NavigableString player]],
        example_stat_cell ''minutes'' minutes,
        example_stat_cell ''npxg'' ''0.1'',
        example_stat_cell ''xg_assist'' []]"

definition example_stats_table :: node where
  "example_stats_table =
     Tag ''table'' None [(''id'', ''stats_18bb7c10_summary'')]
       [Tag ''caption'' None [] [NavigableString ''Arsenal Player Stats Table''],
        Tag ''tbody'' None []
          [example_player_row ''Saka'' ''90'',
           Tag ''tr'' (Some [''thead'']) [] [Tag ''th'' None [] [NavigableString ''Bench'']],
           example_player_row ''Jesus'' ''12'']]"

definition example_table_without_caption :: node where
  "example_table_without_caption =
     Tag ''table'' None [(''id'', ''stats_822bd0ba_summary'')]
       [Tag ''tbody'' None [] [example_player_row ''Salah'' ''90'']]"

definition example_lineup_row :: "string \<Rightarrow> node" where
  "example_lineup_row player =
     Tag ''tr'' None []
       [Tag ''td'' None [] [NavigableString ''7''],
        Tag ''td'' None [] [Tag ''a'' None [] [NavigableString player]]]"

definition example_lineup :: node where
  "example_lineup =
     Tag ''div'' (Some [''lineup'']) [(''id'', ''a'')]
       [Tag ''table'' None []
          [Tag ''tr'' None [] [Tag ''th'' None [] [NavigableString ''Arsenal (4-3-3)'']],
           example_lineup_row ''Jesus'',
           Tag ''tr'' None [] [Tag ''th'' None [] [NavigableString ''Bench'']],
           example_lineup_row ''Saka'',
           example_lineup_row ''Nketiah'']]"

definition example_document :: node where
  "example_document =
     Tag ''[document]'' None []
       [Tag ''html'' None [] [example_lineup, example_stats_table, example_table_without_caption]]"

section \<open>The append log and the consolidated snapshot\<close>

text \<open>
  \<^verbatim>\<open>save_failure\<close> writes the reason as a string; the three reasons the
  orchestrating loop gives are the constructors here. The time stamp is left out.
\<close>

datatype fail_reason = fetch_failed | parse_error | no_rows

text \<open>
  The files the extraction scripts read and write. \<open>OUTPUT_JSONL\<close> is the append log,
  as its list of lines (without the line terminator), \<open>None\<close> when the file does not
  exist; \<open>OUTPUT_JSON\<close> is the array that \<^verbatim>\<open>json.dump\<close> writes to the snapshot;
  \<open>FAIL_LOG\<close> is the failure ledger.
\<close>

record files =
  OUTPUT_JSONL :: "string list option"
  OUTPUT_JSON :: "json list option"
  FAIL_LOG :: "(string \<times> fail_reason) list"

text \<open>
  The loop of \<^verbatim>\<open>rebuild_full_json_from_jsonl\<close>:
  \<^verbatim>\<open>for line in f: try: all_rows.append(json.loads(line)) except Exception: continue\<close>.
  \<open>loads\<close> is \<^verbatim>\<open>json.loads\<close>, \<open>None\<close> when it raises.
\<close>

fun read_all_rows :: "(string \<Rightarrow> json option) \<Rightarrow> string list \<Rightarrow> json list \<Rightarrow> json list" where
  "read_all_rows loads [] all_rows = all_rows"
| "read_all_rows loads (line # f) all_rows =
     (case loads line of
        Some obj \<Rightarrow> read_all_rows loads f (all_rows @ [obj])
      | None \<Rightarrow> read_all_rows loads f all_rows)"

definition rebuild_full_json_from_jsonl :: "(string \<Rightarrow> json option) \<Rightarrow> files \<Rightarrow> files" where
  "rebuild_full_json_from_jsonl loads fs =
     (case OUTPUT_JSONL fs of
        None \<Rightarrow> fs\<lparr>OUTPUT_JSON := Some []\<rparr>
      | Some f \<Rightarrow> fs\<lparr>OUTPUT_JSON := Some (read_all_rows loads f [])\<rparr>)"

section \<open>The orchestrating loops\<close>

definition BASE_URL :: string where
  "BASE_URL = ''https://fbref.com''"

definition CONSECUTIVE_FAIL_CUTOFF :: nat where
  "CONSECUTIVE_FAIL_CUTOFF = 5"

text \<open>
  A fixture, as the scripts read it: the four keys that may hold the link to the match
  report, each \<open>None\<close> when the key is missing or null. \<open>py_or a b\<close> is \<^verbatim>\<open>a or b\<close> on
  such values; \<open>fixture_urls\<close> is the list \<open>urls\<close> that \<^verbatim>\<open>main\<close> builds from the result of
  \<^verbatim>\<open>load_fixtures\<close>.
\<close>

record fixture =
  match_report_url :: "string option"
  matchReportUrl :: "string option"
  match_report :: "string option"
  matchReport :: "string option"

definition py_or :: "string option \<Rightarrow> string option \<Rightarrow> string option" where
  "py_or a b = (case a of Some s \<Rightarrow> if s \<noteq> [] then a else b | None \<Rightarrow> b)"

definition to_abs_url :: "string \<Rightarrow> string" where
  "to_abs_url url =
     (if url = [] then []
      else if startswith url ''http://'' \<or> startswith url ''https://'' then url
      else if startswith url ''/'' then BASE_URL @ url
      else BASE_URL @ ''/'' @ url)"

definition fixture_urls :: "fixture list \<Rightarrow> string list" where
  "fixture_urls fixtures =
     filter (\<lambda>u. u \<noteq> [])
       (concat (map (\<lambda>fixture.
          case py_or (py_or (py_or (match_report_url fixture) (matchReportUrl fixture))
                        (match_report fixture)) (matchReport fixture) of
            None \<Rightarrow> []
          | Some url \<Rightarrow> if url = [] then [] else [to_abs_url url]) fixtures))"

text \<open>
  What the scripts get from outside: \<open>env_request_html idx url\<close> is the answer of
  \<^verbatim>\<open>request_html(url)\<close> for the \<open>idx\<close>-th entry of the list (\<open>None\<close> after its retries),
  \<open>env_parse\<close> is the HTML parser, \<open>env_dumps\<close> and \<open>env_loads\<close> are \<^verbatim>\<open>json.dumps\<close> and
  \<^verbatim>\<open>json.loads\<close>.
\<close>

record env =
  env_request_html :: "nat \<Rightarrow> string \<Rightarrow> string option"
  env_parse :: "string \<Rightarrow> node option"
  env_dumps :: "json \<Rightarrow> string"
  env_loads :: "string \<Rightarrow> json option"

text \<open>
  \<^verbatim>\<open>load_already_processed_urls\<close>. A line that does not parse, or parses to a value
  that is not a dict, is skipped. The set is kept to its strings: the other values that
  the code adds (\<^verbatim>\<open>None\<close>, numbers) never equal a URL.
\<close>

fun processed_loop :: "(string \<Rightarrow> json option) \<Rightarrow> string list \<Rightarrow> string set \<Rightarrow> string set" where
  "processed_loop loads [] processed = processed"
| "processed_loop loads (line # f) processed =
     (case loads line of
        Some (JObj items) \<Rightarrow>
          (case map_of items ''matchUrl'' of
             Some (JStr u) \<Rightarrow> processed_loop loads f (insert u processed)
           | _ \<Rightarrow> processed_loop loads f processed)
      | _ \<Rightarrow> processed_loop loads f processed)"

definition load_already_processed_urls :: "(string \<Rightarrow> json option) \<Rightarrow> files \<Rightarrow> string set" where
  "load_already_processed_urls loads fs =
     (case OUTPUT_JSONL fs of None \<Rightarrow> {} | Some f \<Rightarrow> processed_loop loads f {})"

text \<open>
  \<^verbatim>\<open>append_jsonl\<close> writes one line \<^verbatim>\<open>json.dumps(asdict(row))\<close> for each row, and nothing
  when there is no row; \<^verbatim>\<open>save_failure\<close> appends to the failure ledger.
\<close>

definition json_option :: "('a \<Rightarrow> json) \<Rightarrow> 'a option \<Rightarrow> json" where
  "json_option f v = (case v of None \<Rightarrow> JNull | Some x \<Rightarrow> f x)"

definition asdict :: "AppearanceRow \<Rightarrow> json" where
  "asdict row =
     JObj [(''matchId'', JStr (matchId row)), (''matchUrl'', JStr (matchUrl row)),
           (''playerName'', JStr (playerName row)), (''teamName'', JStr (teamName row)),
           (''in_squad'', JBool (in_squad row)), (''started'', JBool (started row)),
           (''minutes_played'', json_option JInt (minutes_played row)),
           (''npXg'', json_option JFloat (npXg row)), (''xAG'', json_option JFloat (xAG row))]"

definition append_jsonl :: "(json \<Rightarrow> string) \<Rightarrow> AppearanceRow list \<Rightarrow> files \<Rightarrow> files" where
  "append_jsonl dumps rows fs =
     (if rows = [] then fs
      else fs\<lparr>OUTPUT_JSONL :=
             Some ((case OUTPUT_JSONL fs of None \<Rightarrow> [] | Some f \<Rightarrow> f)
                   @ map (\<lambda>row. dumps (asdict row)) rows)\<rparr>)"

definition save_failure :: "string \<Rightarrow> fail_reason \<Rightarrow> files \<Rightarrow> files" where
  "save_failure url reason fs = fs\<lparr>FAIL_LOG := FAIL_LOG fs @ [(url, reason)]\<rparr>"

text \<open>
  The loop of \<^verbatim>\<open>main\<close> in \<^verbatim>\<open>extract_appearance_data.py\<close>. The state holds its
  variables, the files, and \<open>fetched\<close>, the URLs \<^verbatim>\<open>request_html\<close> was called with, in order.
  The pauses (\<^verbatim>\<open>time.sleep\<close>) and the printing are left out. Returning the state where
  the code has \<^verbatim>\<open>break\<close> ends the loop.
\<close>

record run_state =
  processed :: "string set"
  consecutive_fails :: nat
  batch_counter :: nat
  total_saved_rows :: nat
  disk :: files
  fetched :: "string list"

fun main_loop :: "env \<Rightarrow> nat \<Rightarrow> string list \<Rightarrow> run_state \<Rightarrow> run_state" where
  "main_loop E idx [] st = st"
| "main_loop E idx (url # urls) st =
     (if url \<in> processed st then main_loop E (idx + 1) urls st
      else
        (let st = st\<lparr>fetched := fetched st @ [url]\<rparr>;
             html = env_request_html E idx url
         in if html = None \<or> html = Some [] then
              (let st = st\<lparr>disk := save_failure url fetch_failed (disk st),
                            consecutive_fails := consecutive_fails st + 1\<rparr>
               in if CONSECUTIVE_FAIL_CUTOFF \<le> consecutive_fails st then st
                  else main_loop E (idx + 1) urls st)
            else
              (case extract_from_html (env_parse E) (the html) url of
                 None \<Rightarrow>
                   (let st = st\<lparr>disk := save_failure url parse_error (disk st),
                                 consecutive_fails := consecutive_fails st + 1\<rparr>
                    in if CONSECUTIVE_FAIL_CUTOFF \<le> consecutive_fails st then st
                       else main_loop E (idx + 1) urls st)
               | Some rows \<Rightarrow>
                   (let st = (if rows = [] then
                                st\<lparr>disk := save_failure url no_rows (disk st),
                                    consecutive_fails := consecutive_fails st + 1\<rparr>
                              else
                                st\<lparr>disk := append_jsonl (env_dumps E) rows (disk st),
                                    total_saved_rows := total_saved_rows st + length rows,
                                    consecutive_fails := 0,
                                    processed := insert url (processed st)\<rparr>)
                    in main_loop E (idx + 1) urls
                         (st\<lparr>batch_counter := batch_counter st + 1\<rparr>)))))"

definition main :: "env \<Rightarrow> fixture list \<Rightarrow> files \<Rightarrow> run_state" where
  "main E fixtures fs =
     (let urls = fixture_urls fixtures;
          st = main_loop E 1 urls
                 \<lparr>processed = load_already_processed_urls (env_loads E) fs,
                  consecutive_fails = 0, batch_counter = 0, total_saved_rows = 0,
                  disk = fs, fetched = []\<rparr>
      in st\<lparr>disk := rebuild_full_json_from_jsonl (env_loads E) (disk st)\<rparr>)"

text \<open>
  An example environment: one address that cannot be fetched, the address of the example
  document, and pages with no table for every other address. Its encoder keeps the
  player name of a row, and its decoder knows the rows of the example document.
\<close>

definition example_env :: env where
  "example_env =
     \<lparr>env_request_html =
        (\<lambda>idx url. if url = ''https://fbref.com/down'' then None
                    else if url = ''https://fbref.com/en/matches/18bb7c10/'' then Some ''<html>report</html>''
                    else Some ''<html></html>''),
      env_parse =
        (\<lambda>text. if text = ''<html></html>'' then Some (Tag ''[document]'' None [] [Tag ''html'' None [] []])
                else if text = ''<html>report</html>'' then Some example_document
                else None),
      env_dumps =
        (\<lambda>obj. case obj of
           JObj items \<Rightarrow> (case map_of items ''playerName'' of Some (JStr p) \<Rightarrow> p | _ \<Rightarrow> [])
         | _ \<Rightarrow> []),
      env_loads =
        (\<lambda>line. map_of
           (map (\<lambda>row. (playerName row, asdict row))
              (extract_from_soup (\<lambda>text. None) example_document
                 ''https://fbref.com/en/matches/18bb7c10/'')) line)\<rparr>"

definition example_fixture :: "string \<Rightarrow> fixture" where
  "example_fixture url = \<lparr>match_report_url = Some url, matchReportUrl = None, match_report = None, matchReport = None\<rparr>"

text \<open>
  The script \<^verbatim>\<open>augment_bench_dnp.py\<close>. \<open>load_existing_index\<close> reads the snapshot as the
  rows \<^verbatim>\<open>append_jsonl\<close> wrote (\<open>None\<close> when there is no snapshot file); an empty field is
  false in \<^verbatim>\<open>if not mu or not pn or not tn\<close>.
\<close>

fun index_loop ::
  "AppearanceRow list \<Rightarrow> (string \<rightharpoonup> (string \<times> string) set) \<Rightarrow> (string \<rightharpoonup> (string \<times> string) set)" where
  "index_loop [] idx = idx"
| "index_loop (r # data) idx =
     (let mu = matchUrl r; pn = playerName r; tn = teamName r
      in if mu = [] \<or> pn = [] \<or> tn = [] then index_loop data idx
         else index_loop data
                (idx(mu \<mapsto> insert (pn, tn) (case idx mu of None \<Rightarrow> {} | Some s \<Rightarrow> s))))"

definition load_existing_index ::
  "AppearanceRow list option \<Rightarrow> (string \<rightharpoonup> (string \<times> string) set)" where
  "load_existing_index appear_json =
     (case appear_json of None \<Rightarrow> Map.empty | Some data \<Rightarrow> index_loop data Map.empty)"

definition augment_urls :: "fixture list \<Rightarrow> string list" where
  "augment_urls fixtures =
     concat (map (\<lambda>fx.
        case py_or (match_report_url fx) (matchReportUrl fx) of
          None \<Rightarrow> []
        | Some u \<Rightarrow> if u = [] then [] else [to_abs_url u]) fixtures)"

record augment_state =
  existing :: "string \<rightharpoonup> (string \<times> string) set"
  added_rows :: nat
  processed_urls :: nat
  aug_disk :: files

fun augment_loop :: "env \<Rightarrow> nat \<Rightarrow> string list \<Rightarrow> augment_state \<Rightarrow> augment_state" where
  "augment_loop E i [] st = st"
| "augment_loop E i (url # urls) st =
     (let html = env_request_html E i url
      in if html = None \<or> html = Some [] then augment_loop E (i + 1) urls st
         else
           (case extract_from_html (env_parse E) (the html) url of
              None \<Rightarrow> augment_loop E (i + 1) urls st
            | Some rows \<Rightarrow>
                if rows = [] then augment_loop E (i + 1) urls st
                else
                  (let existing_set = (case existing st url of None \<Rightarrow> {} | Some s \<Rightarrow> s);
                       new_rows = filter (\<lambda>r. minutes_played r = None
                                      \<and> (playerName r, teamName r) \<notin> existing_set) rows;
                       st = (if new_rows \<noteq> [] then
                               st\<lparr>aug_disk := append_jsonl (env_dumps E) new_rows (aug_disk st),
                                   added_rows := added_rows st + length new_rows,
                                   existing := (existing st)(url \<mapsto>
                                     existing_set \<union> set (map (\<lambda>r. (playerName r, teamName r)) new_rows))\<rparr>
                             else st)
                   in augment_loop E (i + 1) urls
                        (st\<lparr>processed_urls := processed_urls st + 1\<rparr>))))"

definition augment_main :: "env \<Rightarrow> fixture list \<Rightarrow> AppearanceRow list option \<Rightarrow> files \<Rightarrow> augment_state" where
  "augment_main E fixtures appear_json fs =
     (let urls = augment_urls fixtures;
          st = augment_loop E 1 urls
                 \<lparr>existing = load_existing_index appear_json, added_rows = 0,
                  processed_urls = 0, aug_disk = fs\<rparr>
      in st\<lparr>aug_disk := rebuild_full_json_from_jsonl (env_loads E) (aug_disk st)\<rparr>)"

definition example_rows :: "AppearanceRow list" where
  "example_rows =
     extract_from_soup (\<lambda>text. None) example_document ''https://fbref.com/en/matches/18bb7c10/''"

definition example_files :: files where
  "example_files =
     \<lparr>OUTPUT_JSONL = Some [''Saka'', ''Jesus'', ''Nketiah''], OUTPUT_JSON = None, FAIL_LOG = []\<rparr>"

section \<open>The coverage check\<close>

text \<open>
  The script \<^verbatim>\<open>normalize_and_check_appearance.py\<close>. The loop of \<^verbatim>\<open>normalize_team\<close>,
  \<^verbatim>\<open>while '  ' in n: n = n.replace('  ', ' ')\<close>, ends because each round makes the text
  shorter; the three lemmas are for that.
\<close>

lemma take_eq_length_le: "take n xs = ys \<Longrightarrow> length ys \<le> length xs"
  by auto

lemma replace_length_le:
  "length new \<le> length old \<Longrightarrow> length (replace old new s) \<le> length s"
proof (induction old new s rule: replace.induct)
  case (1 old new)
  then show ?case by auto
next
  case (2 old new c cs)
  show ?case
  proof (cases "old = []")
    case True
    then show ?thesis using 2 by simp
  next
    case False
    show ?thesis
    proof (cases "take (length old) (c # cs) = old")
      case True
      then have le: "length old \<le> length (c # cs)"
        by (rule take_eq_length_le)
      have ih: "length (replace old new (drop (length old) (c # cs)))
          \<le> length (drop (length old) (c # cs))"
        using 2 False True by blast
      have "replace old new (c # cs) = new @ replace old new (drop (length old) (c # cs))"
        using False True by (simp del: take_Suc_Cons drop_Suc_Cons)
      then have "length (replace old new (c # cs))
          = length new + length (replace old new (drop (length old) (c # cs)))"
        by simp
      moreover have "length (drop (length old) (c # cs)) = length (c # cs) - length old"
        by (rule length_drop)
      ultimately show ?thesis
        using ih le "2.prems" by linarith
    next
      case no: False
      then show ?thesis using 2 False by simp
    qed
  qed
qed

lemma replace_length_less:
  "old \<noteq> [] \<Longrightarrow> length new < length old \<Longrightarrow> contains old s \<Longrightarrow>
   length (replace old new s) < length s"
proof (induction old new s rule: replace.induct)
  case (1 old new)
  then show ?case by simp
next
  case (2 old new c cs)
  show ?case
  proof (cases "take (length old) (c # cs) = old")
    case True
    then have le: "length old \<le> length (c # cs)"
      by (rule take_eq_length_le)
    have "length new \<le> length old"
      using "2.prems" by simp
    then have ih: "length (replace old new (drop (length old) (c # cs)))
        \<le> length (drop (length old) (c # cs))"
      by (rule replace_length_le)
    have "replace old new (c # cs) = new @ replace old new (drop (length old) (c # cs))"
      using "2.prems" True by (simp del: take_Suc_Cons drop_Suc_Cons)
    then have "length (replace old new (c # cs))
        = length new + length (replace old new (drop (length old) (c # cs)))"
      by simp
    moreover have "length (drop (length old) (c # cs)) = length (c # cs) - length old"
      by (rule length_drop)
    ultimately show ?thesis
      using ih le "2.prems" by linarith
  next
    case False
    then show ?thesis using 2 by simp
  qed
qed

function collapse_spaces :: "string \<Rightarrow> string" where
  "collapse_spaces n = (if contains ''  '' n then collapse_spaces (replace ''  '' '' '' n) else n)"
  by pat_completeness auto
termination
  by (relation "measure length") (auto simp: replace_length_less)

text \<open>
  The alias table and \<^verbatim>\<open>normalize_team\<close>.
\<close>

definition TEAM_ALIASES :: "(string \<times> string) list" where
  "TEAM_ALIASES =
     [(''Manchester Utd'', ''Manchester United''),
      (''Man Utd'', ''Manchester United''),
      (''West Ham Utd'', ''West Ham''),
      (''Brighton & Hove Albion'', ''Brighton and Hove Albion''),
      (''Wolves'', ''Wolverhampton Wanderers''),
      (''Newcastle Utd'', ''Newcastle United'')]"

definition normalize_team :: "string \<Rightarrow> string" where
  "normalize_team name =
     (if name = [] then name
      else
        (let n = collapse_spaces (strip_with isspace (replace ''Table'' [] name))
         in case map_of TEAM_ALIASES n of
              Some full \<Rightarrow> full
            | None \<Rightarrow> replace '' Utd'' '' United'' n))"

text \<open>
  \<^verbatim>\<open>to_abs_url\<close> of this script joins with \<^verbatim>\<open>urllib.parse.urljoin\<close>, a parameter here.
  \<open>fixture_urls_loop\<close> is the loop that fills the set \<^verbatim>\<open>fixture_urls\<close>; a fixture file that
  is a dict is read as the list of its values.
\<close>

definition to_abs_url_join :: "(string \<Rightarrow> string \<Rightarrow> string) \<Rightarrow> string \<Rightarrow> string" where
  "to_abs_url_join urljoin url =
     (if url = [] then []
      else if startswith url ''http://'' \<or> startswith url ''https://'' then url
      else if startswith url ''/'' then urljoin BASE_URL url
      else urljoin (BASE_URL @ ''/'') url)"

fun fixture_urls_loop ::
  "(string \<Rightarrow> string \<Rightarrow> string) \<Rightarrow> fixture list \<Rightarrow> string set \<Rightarrow> string set" where
  "fixture_urls_loop urljoin [] fixture_url_set = fixture_url_set"
| "fixture_urls_loop urljoin (v # fixtures) fixture_url_set =
     (case py_or (match_report_url v) (matchReportUrl v) of
        None \<Rightarrow> fixture_urls_loop urljoin fixtures fixture_url_set
      | Some u \<Rightarrow>
          if u = [] then fixture_urls_loop urljoin fixtures fixture_url_set
          else fixture_urls_loop urljoin fixtures (insert (to_abs_url_join urljoin u) fixture_url_set))"

text \<open>
  \<^verbatim>\<open>per_match_teams\<close> is a dict, kept with its keys in insertion order;
  \<open>setdefault_add mu tn d\<close> is \<^verbatim>\<open>d.setdefault(mu, set()).add(tn)\<close>. The snapshot is read as
  the rows \<^verbatim>\<open>append_jsonl\<close> wrote. \<open>per_match_teams_loop\<close> normalises the team name of each
  row and indexes the rows with a non-empty \<^verbatim>\<open>matchUrl\<close>.
\<close>

definition setdefault_add ::
  "string \<Rightarrow> string \<Rightarrow> (string \<times> string set) list \<Rightarrow> (string \<times> string set) list" where
  "setdefault_add mu tn d =
     (if mu \<in> set (map fst d)
      then map (\<lambda>(k, teams). if k = mu then (k, insert tn teams) else (k, teams)) d
      else d @ [(mu, {tn})])"

fun per_match_teams_loop ::
  "AppearanceRow list \<Rightarrow> AppearanceRow list \<Rightarrow> (string \<times> string set) list
   \<Rightarrow> AppearanceRow list \<times> (string \<times> string set) list" where
  "per_match_teams_loop [] rows_out per_match_teams = (rows_out, per_match_teams)"
| "per_match_teams_loop (r # rows) rows_out per_match_teams =
     (let r = r\<lparr>teamName := normalize_team (teamName r)\<rparr>;
          mu = matchUrl r
      in per_match_teams_loop rows (rows_out @ [r])
           (if mu \<noteq> [] then setdefault_add mu (teamName r) per_match_teams
            else per_match_teams))"

fun incomplete_loop :: "(string \<times> string set) list \<Rightarrow> (string \<times> string list) list
   \<Rightarrow> (string \<times> string list) list" where
  "incomplete_loop [] incomplete = incomplete"
| "incomplete_loop ((url, teams) # items) incomplete =
     (if card teams \<noteq> 2
      then incomplete_loop items (incomplete @ [(url, sorted_list_of_set teams)])
      else incomplete_loop items incomplete)"

text \<open>
  What \<^verbatim>\<open>main\<close> computes: the normalised rows, the two sorted lists and the incomplete
  matches, each with its sorted \<^verbatim>\<open>teamsFound\<close>. The extra URLs are only counted in the
  printed summary.
\<close>

record report =
  APPEAR_JSON_NORMALIZED :: "AppearanceRow list"
  missing_urls :: "string list"
  extra_urls :: "string list"
  incomplete :: "(string \<times> string list) list"

definition check_main ::
  "(string \<Rightarrow> string \<Rightarrow> string) \<Rightarrow> fixture list \<Rightarrow> AppearanceRow list \<Rightarrow> report" where
  "check_main urljoin fixtures rows =
     (let fixture_urls = fixture_urls_loop urljoin fixtures {}
      in case per_match_teams_loop rows [] [] of
        (normalized, per_match_teams) \<Rightarrow>
          (let present_urls = set (map fst per_match_teams)
           in \<lparr>APPEAR_JSON_NORMALIZED = normalized,
               missing_urls = sorted_list_of_set {u \<in> fixture_urls. u \<notin> present_urls},
               extra_urls = sorted_list_of_set {u \<in> present_urls. u \<notin> fixture_urls},
               incomplete = incomplete_loop per_match_teams []\<rparr>))"

text \<open>
  A snapshot row for the examples.
\<close>

definition example_snapshot_row :: "string \<Rightarrow> string \<Rightarrow> AppearanceRow" where
  "example_snapshot_row url team =
     \<lparr>matchId = [], matchUrl = url, playerName = ''Player'', teamName = team, in_squad = True,
      started = True, minutes_played = Some 90, npXg = None, xAG = None\<rparr>"

text \<open>
  For the statements: the distinct normalised team names that the rows of a match carry,
  the match URLs of the snapshot in the order of their first appearance, and the lookup
  in \<^verbatim>\<open>per_match_teams\<close>.
\<close>

definition teams_of :: "AppearanceRow list \<Rightarrow> string \<Rightarrow> string set" where
  "teams_of rows url =
     set (map (\<lambda>r. normalize_team (teamName r)) (filter (\<lambda>r. matchUrl r = url) rows))"

definition first_seen :: "AppearanceRow list \<Rightarrow> string list" where
  "first_seen rows = rev (remdups (rev (filter (\<lambda>u. u \<noteq> []) (map matchUrl rows))))"

definition teams_at :: "(string \<times> string set) list \<Rightarrow> string \<Rightarrow> string set" where
  "teams_at d u = (case map_of d u of None \<Rightarrow> {} | Some teams \<Rightarrow> teams)"

section \<open>Snapshot rebuild\<close>





text \<open>
  C10. When the append log does not exist, the rebuild writes the empty array as the
  snapshot and changes nothing else.
\<close>

theorem rebuild_without_log_writes_empty_array:
  "rebuild_full_json_from_jsonl loads (fs\<lparr>OUTPUT_JSONL := None\<rparr>)
     = fs\<lparr>OUTPUT_JSONL := None, OUTPUT_JSON := Some []\<rparr>"
  by (simp add: rebuild_full_json_from_jsonl_def)

section \<open>Numeric parsing\<close>

lemma is_digit_not_underscore: "is_digit c \<Longrightarrow> c \<noteq> CHR ''_''"
  by (auto simp: is_digit_def)

lemma is_digit_not_sign: "is_digit c \<Longrightarrow> c \<noteq> CHR ''-'' \<and> c \<noteq> CHR ''+''"
  by (auto simp: is_digit_def)

lemma is_digit_not_space: "is_digit c \<Longrightarrow> \<not> Py_ISSPACE c"
  by (auto simp: is_digit_def Py_ISSPACE_def Let_def)

lemma int_digits_all_digits:
  "list_all is_digit ds \<Longrightarrow> ds \<noteq> [] \<or> prev \<noteq> CHR ''_'' \<Longrightarrow> int_digits prev ds = Some ds"
  by (induction ds arbitrary: prev) (auto simp: is_digit_not_underscore)

lemma int_digits_stops:
  "list_all is_digit ds \<Longrightarrow> \<not> is_digit c \<Longrightarrow> c \<noteq> CHR ''_'' \<Longrightarrow>
   int_digits prev (ds @ c # r) = None"
  by (induction ds arbitrary: prev) auto

lemma rstrip_prefix: "\<exists>ys. xs = rev (dropWhile P (rev xs)) @ ys"
proof -
  have "rev xs = takeWhile P (rev xs) @ dropWhile P (rev xs)" by simp
  then have "xs = rev (dropWhile P (rev xs)) @ rev (takeWhile P (rev xs))"
    by (metis rev_append rev_rev_ident)
  then show ?thesis ..
qed

lemma rstrip_hd: "rev (dropWhile P (rev xs)) = c # t \<Longrightarrow> \<exists>t'. xs = c # t'"
  using rstrip_prefix [of xs P] by auto

lemma strip_digits_append:
  assumes "ds \<noteq> []" "list_all is_digit ds"
  shows "strip_with Py_ISSPACE (ds @ rest) = ds @ rev (dropWhile Py_ISSPACE (rev rest))"
proof -
  obtain d ds' where ds: "ds = d # ds'" using assms(1) by (cases ds) auto
  obtain bs l where l: "ds = bs @ [l]" using assms(1) by (cases ds rule: rev_cases) auto
  have nl: "\<not> Py_ISSPACE l" using assms(2) l by (simp add: is_digit_not_space)
  have "is_digit d" using assms(2) ds by simp
  then have "dropWhile Py_ISSPACE (ds @ rest) = ds @ rest"
    using ds by (simp add: is_digit_not_space)
  moreover have "dropWhile Py_ISSPACE (rev rest @ rev ds) = dropWhile Py_ISSPACE (rev rest) @ rev ds"
  proof (cases "\<forall>x \<in> set (rev rest). Py_ISSPACE x")
    case True
    have "dropWhile Py_ISSPACE (rev ds) = rev ds" using nl l by simp
    moreover have "dropWhile Py_ISSPACE (rev rest) = []" using True by simp
    ultimately show ?thesis using True by (simp add: dropWhile_append)
  next
    case False
    then show ?thesis by (auto simp: dropWhile_append)
  qed
  ultimately show ?thesis by (simp add: strip_with_def)
qed

lemma py_int_digits:
  assumes "ds \<noteq> []" "list_all is_digit ds" "length ds \<le> int_max_str_digits"
  shows "py_int ds = Some (int (decimal ds))"
proof -
  have s: "strip_with Py_ISSPACE ds = ds"
    using strip_digits_append [OF assms(1,2), of "[]"] by simp
  obtain d ds' where ds: "ds = d # ds'" "is_digit d" using assms(1,2) by (cases ds) auto
  have "split_sign ds = (False, ds)"
    using ds is_digit_not_sign [of d] by (simp add: split_sign_def)
  then show ?thesis
    using assms by (simp add: py_int_def s int_digits_all_digits)
qed

lemma py_int_digits_then:
  assumes "ds \<noteq> []" "list_all is_digit ds" "length ds \<le> int_max_str_digits"
    and "\<not> is_digit c" "c \<noteq> CHR ''_''"
  shows "py_int (ds @ c # r) = None \<or> py_int (ds @ c # r) = Some (int (decimal ds))"
proof -
  define r' where "r' = rev (dropWhile Py_ISSPACE (rev (c # r)))"
  have s: "strip_with Py_ISSPACE (ds @ c # r) = ds @ r'"
    unfolding r'_def by (rule strip_digits_append [OF assms(1,2)])
  obtain d ds' where ds: "ds = d # ds'" "is_digit d" using assms(1,2) by (cases ds) auto
  have sg: "split_sign (ds @ r') = (False, ds @ r')"
    using ds is_digit_not_sign [of d] by (simp add: split_sign_def)
  show ?thesis
  proof (cases r')
    case Nil
    then show ?thesis
      using assms(1-3) s sg by (simp add: py_int_def int_digits_all_digits)
  next
    case (Cons c' t)
    then have "c' = c" using rstrip_hd [of Py_ISSPACE "c # r" c' t] by (simp add: r'_def)
    then have "int_digits (CHR ''_'') (ds @ r') = None"
      using Cons assms(2,4,5) by (simp add: int_digits_stops)
    then show ?thesis by (simp add: py_int_def s sg)
  qed
qed

lemma parse_minutes_leading_integer:
  assumes "ds \<noteq> []" "list_all is_digit ds" "length ds \<le> int_max_str_digits"
    and "rest = [] \<or> (\<not> is_digit (hd rest) \<and> hd rest \<noteq> CHR ''_'')"
  shows "parse_minutes (ds @ rest) = Some (int (decimal ds))"
proof (cases rest)
  case Nil
  then show ?thesis using assms by (simp add: parse_minutes_def py_int_digits)
next
  case (Cons c r)
  then have c: "\<not> is_digit c" "c \<noteq> CHR ''_''" using assms(4) by auto
  have tw: "takeWhile is_digit (ds @ c # r) = ds"
    using assms(2) c(1) by (simp add: takeWhile_append2 list_all_iff)
  from py_int_digits_then [OF assms(1-3) c, of r]
  show ?thesis
    using assms(1) by (auto simp: parse_minutes_def Cons tw py_int_digits [OF assms(1-3)])
qed

text \<open>
  C7 (as amended). The numeric parsers return a value or absent on every input.
  Minutes parsing maps "90" to 90 and "90+2" to 90; in general, text made of a run of at
  most 4300 digits followed by nothing, or by a character that is neither a digit nor
  an underscore, maps to the value of the run. It maps the empty text, and every text
  that the integer conversion rejects and that does not begin with a digit, to absent.
  Metric parsing maps a missing cell, "" and "-" to absent, maps "1,234" to 1234.0, and
  maps to absent every text that the float conversion rejects both as it is and with
  its commas removed.
\<close>

theorem numeric_parsers_total:
  "parse_minutes ''90'' = Some 90
   \<and> parse_minutes ''90+2'' = Some 90
   \<and> (ds \<noteq> [] \<and> list_all is_digit ds \<and> length ds \<le> int_max_str_digits
        \<and> (rest = [] \<or> (\<not> is_digit (hd rest) \<and> hd rest \<noteq> CHR ''_''))
      \<longrightarrow> parse_minutes (ds @ rest) = Some (int (decimal ds)))
   \<and> parse_minutes [] = None
   \<and> (py_int raw = None \<and> takeWhile is_digit raw = [] \<longrightarrow> parse_minutes raw = None)
   \<and> parse_float None = None
   \<and> parse_float (Some []) = None
   \<and> parse_float (Some ''-'') = None
   \<and> parse_float (Some ''1,234'') = Some (Finite 1234)
   \<and> (py_float (strip_with isspace r) = None
        \<and> py_float (replace '','' [] (strip_with isspace r)) = None
      \<longrightarrow> parse_float (Some r) = None)"
proof (intro conjI impI)
  show "parse_minutes ''90'' = Some 90"
    using parse_minutes_leading_integer [of "''90''" "[]"]
    by (simp add: is_digit_def int_max_str_digits_def decimal_def digit_val_def)
  show "parse_minutes ''90+2'' = Some 90"
    using parse_minutes_leading_integer [of "''90''" "''+2''"]
    by (simp add: is_digit_def int_max_str_digits_def decimal_def digit_val_def)
  show "parse_minutes [] = None"
    by (simp add: parse_minutes_def)
  show "parse_float None = None"
    by (simp add: parse_float_def)
  show "parse_float (Some []) = None"
    by (simp add: parse_float_def strip_with_def)
  show "parse_float (Some ''-'') = None"
    by (simp add: parse_float_def strip_with_def isspace_def)
  show "parse_float (Some ''1,234'') = Some (Finite 1234)"
    by (simp add: parse_float_def py_float_def float_number_def split_sign_def
        strip_with_def isspace_def Py_ISSPACE_def is_digit_def decimal_def digit_val_def
        lower_def lower_char_def)
next
  assume "ds \<noteq> [] \<and> list_all is_digit ds \<and> length ds \<le> int_max_str_digits
        \<and> (rest = [] \<or> (\<not> is_digit (hd rest) \<and> hd rest \<noteq> CHR ''_''))"
  then show "parse_minutes (ds @ rest) = Some (int (decimal ds))"
    by (intro parse_minutes_leading_integer) auto
next
  assume "py_int raw = None \<and> takeWhile is_digit raw = []"
  then show "parse_minutes raw = None"
    by (simp add: parse_minutes_def)
next
  assume "py_float (strip_with isspace r) = None
        \<and> py_float (replace '','' [] (strip_with isspace r)) = None"
  then show "parse_float (Some r) = None"
    by (simp add: parse_float_def Let_def)
qed

theorem numeric_parsers_total_witness:
  "parse_minutes (''105'' @ ''+3'') = Some (int (decimal ''105''))
   \<and> decimal ''105'' = 105
   \<and> parse_minutes ''n/a'' = None
   \<and> parse_float (Some ''1,2x'') = None"
  using numeric_parsers_total [where ds = "''105''" and rest = "''+3''" and raw = "''n/a''"
      and r = "''1,2x''"]
  by (simp add: py_float_def float_number_def split_sign_def exponent_def py_int_def
      strip_with_def isspace_def Py_ISSPACE_def is_digit_def decimal_def digit_val_def
      lower_def lower_char_def int_max_str_digits_def)

text \<open>
  The claim as stated fails: "-5" does not begin with a digit, and minutes parsing maps
  it to -5, because the integer conversion is tried on the whole text first.
\<close>

theorem parse_minutes_signed_counterexample:
  "\<not> is_digit (hd ''-5'') \<and> parse_minutes ''-5'' = Some (- 5)"
  by (simp add: parse_minutes_def py_int_def split_sign_def strip_with_def Py_ISSPACE_def
      is_digit_def decimal_def digit_val_def int_max_str_digits_def)

section \<open>Extraction\<close>

lemma bench_loop_seen:
  "bench_loop played team mid url trs True results =
     results @ map (unused_sub_row mid url team)
       (filter (\<lambda>n. n \<notin> played) (filter (\<lambda>n. n \<noteq> [])
          (concat (map td_names (filter (\<lambda>tr. \<not> is_bench_marker tr) trs)))))"
proof (induction trs arbitrary: results)
  case Nil
  then show ?case by simp
next
  case (Cons tr trs)
  show ?case
  proof (cases "is_bench_marker tr")
    case True
    then show ?thesis using Cons.IH by simp
  next
    case False
    then show ?thesis
      using Cons.IH
      by (auto simp: td_names_def unused_sub_row_def Let_def split: list.splits)
  qed
qed

lemma bench_loop_unseen:
  "bench_loop played team mid url trs False results =
     results @ map (unused_sub_row mid url team)
       (filter (\<lambda>n. n \<notin> played) (filter (\<lambda>n. n \<noteq> [])
          (concat (map td_names (filter (\<lambda>tr. \<not> is_bench_marker tr)
             (dropWhile (\<lambda>tr. \<not> is_bench_marker tr) trs))))))"
proof (induction trs arbitrary: results)
  case Nil
  then show ?case by simp
next
  case (Cons tr trs)
  show ?case
  proof (cases "is_bench_marker tr")
    case True
    then show ?thesis by (simp add: bench_loop_seen)
  next
    case False
    then show ?thesis using Cons.IH by simp
  qed
qed

lemma bench_loop_table:
  "bench_loop played team mid url (find_all ''tr'' table) False results =
     results @ map (unused_sub_row mid url team)
       (filter (\<lambda>n. n \<notin> played) (bench_listed_players table))"
  by (simp add: bench_loop_unseen bench_listed_players_def td_names_def [abs_def])

lemma unused_subs_loop_eq:
  "unused_subs_loop played mid url divs results =
     results @ concat (map (lineup_unused_subs played mid url) divs)"
  by (induction divs arbitrary: results)
     (auto simp: lineup_unused_subs_def bench_loop_table Let_def split: option.splits)

lemma tables_loop_started:
  "starters \<noteq> {} \<Longrightarrow> \<forall>r \<in> set results. started r = (playerName r \<in> starters) \<Longrightarrow>
   \<forall>r \<in> set (snd (tables_loop url starters tbls played results)).
      started r = (playerName r \<in> starters)"
proof (induction tbls arbitrary: played results)
  case Nil
  then show ?case by simp
next
  case (Cons tbl tbls)
  show ?case
  proof (cases "find ''caption'' tbl")
    case None
    then show ?thesis using Cons by simp
  next
    case (Some caption_el)
    then show ?thesis
      using Cons.prems
      by (simp add: Let_def) (rule Cons.IH, auto)
  qed
qed

lemma tables_loop_skip:
  "find ''caption'' tbl = None \<Longrightarrow>
   tables_loop url starters (tbls1 @ tbl # tbls2) played results =
   tables_loop url starters (tbls1 @ tbls2) played results"
  by (induction tbls1 arbitrary: played results) (auto simp: Let_def split: option.splits)

text \<open>
  C1. When the starter set resolved from the lineup sections of a document is not empty,
  the rows of the document are the rows of its located stats tables followed by the
  unused substitutes, and every row of every located stats table has \<open>started\<close> equal to
  the membership of its player name in the starter set, wherever the table has its Bench
  divider.
\<close>

theorem lineup_overrides_started:
  "get_lineup_starters soup \<noteq> {} \<longrightarrow>
     (\<exists>played_players rows.
        tables_loop match_url (get_lineup_starters soup) (candidate_tables parse soup) {} []
          = (played_players, rows)
        \<and> extract_from_soup parse soup match_url
          = rows @ extract_unused_subs_from_lineups soup played_players (match_id_of match_url) match_url
        \<and> (\<forall>r \<in> set rows. started r = (playerName r \<in> get_lineup_starters soup)))"
proof
  assume ne: "get_lineup_starters soup \<noteq> {}"
  obtain played_players rows where
    t: "tables_loop match_url (get_lineup_starters soup) (candidate_tables parse soup) {} []
          = (played_players, rows)"
    by (cases "tables_loop match_url (get_lineup_starters soup) (candidate_tables parse soup) {} []")
  have "\<forall>r \<in> set rows. started r = (playerName r \<in> get_lineup_starters soup)"
    using tables_loop_started [OF ne, of "[]" match_url "candidate_tables parse soup" "{}"] t
    by simp
  then show "\<exists>played_players rows.
        tables_loop match_url (get_lineup_starters soup) (candidate_tables parse soup) {} []
          = (played_players, rows)
        \<and> extract_from_soup parse soup match_url
          = rows @ extract_unused_subs_from_lineups soup played_players (match_id_of match_url) match_url
        \<and> (\<forall>r \<in> set rows. started r = (playerName r \<in> get_lineup_starters soup))"
    using t by (simp add: extract_from_soup_def)
qed

theorem lineup_overrides_started_witness:
  "get_lineup_starters example_document = {''Jesus''}
   \<and> map (\<lambda>r. (playerName r, started r, minutes_played r))
       (snd (tables_loop ''/en/matches/18bb7c10/'' (get_lineup_starters example_document)
          (candidate_tables (\<lambda>text. None) example_document) {} []))
     = [(''Saka'', False, Some 90), (''Jesus'', True, Some 12)]
   \<and> (\<exists>played_players rows.
        tables_loop ''/en/matches/18bb7c10/'' (get_lineup_starters example_document)
          (candidate_tables (\<lambda>text. None) example_document) {} [] = (played_players, rows)
        \<and> extract_from_soup (\<lambda>text. None) example_document ''/en/matches/18bb7c10/''
          = rows @ extract_unused_subs_from_lineups example_document played_players
              (match_id_of ''/en/matches/18bb7c10/'') ''/en/matches/18bb7c10/''
        \<and> (\<forall>r \<in> set rows. started r = (playerName r \<in> get_lineup_starters example_document)))"
proof -
  have s: "get_lineup_starters example_document = {''Jesus''}"
    by code_simp
  have r: "map (\<lambda>r. (playerName r, started r, minutes_played r))
       (snd (tables_loop ''/en/matches/18bb7c10/'' (get_lineup_starters example_document)
          (candidate_tables (\<lambda>text. None) example_document) {} []))
     = [(''Saka'', False, Some 90), (''Jesus'', True, Some 12)]"
    by code_simp
  have ne: "get_lineup_starters example_document \<noteq> {}"
    using s by simp
  show ?thesis
    using lineup_overrides_started [where soup = example_document
        and match_url = "''/en/matches/18bb7c10/''" and parse = "\<lambda>text. None"] ne s r
    by blast
qed

text \<open>
  C9. A located stats table with no caption element adds no row and no played player,
  and the loop goes on with the remaining candidate tables: the result is that of the
  same list of tables without it.
\<close>

theorem table_without_caption_skipped:
  "find ''caption'' tbl = None \<longrightarrow>
     tables_loop match_url starters_from_lineup (tbls1 @ tbl # tbls2) played_players results
       = tables_loop match_url starters_from_lineup (tbls1 @ tbls2) played_players results"
  by (simp add: tables_loop_skip)

theorem table_without_caption_skipped_witness:
  "find ''caption'' example_table_without_caption = None
   \<and> tables_loop ''/en/matches/18bb7c10/'' {}
       ([example_stats_table] @ example_table_without_caption # []) {} []
     = tables_loop ''/en/matches/18bb7c10/'' {} ([example_stats_table] @ []) {} []"
proof -
  have h: "find ''caption'' example_table_without_caption = None"
    by code_simp
  show ?thesis
    using table_without_caption_skipped [where tbl = example_table_without_caption
        and ?tbls1.0 = "[example_stats_table]" and ?tbls2.0 = "[]"
        and match_url = "''/en/matches/18bb7c10/''" and starters_from_lineup = "{}"
        and played_players = "{}" and results = "[]"] h
    by blast
qed

text \<open>
  C6. The rows of the unused substitutes of a document are, lineup section after lineup
  section, exactly one row for each bench player of the section whose name is not among
  the played players, with \<open>started\<close> false, minutes, npxG and xAG absent, \<open>inSquad\<close> true
  and the team name of the section's header without its formation; and every such row
  has its minutes absent.
\<close>

theorem unused_substitutes_synthetic_rows:
  "extract_unused_subs_from_lineups soup played_players match_id match_url
     = concat (map (lineup_unused_subs played_players match_id match_url)
         (find_all_class ''div'' ''lineup'' soup))
   \<and> (\<forall>r \<in> set (extract_unused_subs_from_lineups soup played_players match_id match_url).
        \<not> started r \<and> minutes_played r = None \<and> npXg r = None \<and> xAG r = None \<and> in_squad r
        \<and> playerName r \<notin> played_players \<and> playerName r \<noteq> [])"
proof -
  have eq: "extract_unused_subs_from_lineups soup played_players match_id match_url
     = concat (map (lineup_unused_subs played_players match_id match_url)
         (find_all_class ''div'' ''lineup'' soup))"
    by (simp add: extract_unused_subs_from_lineups_def unused_subs_loop_eq)
  have "\<forall>d. \<forall>r \<in> set (lineup_unused_subs played_players match_id match_url d).
        \<not> started r \<and> minutes_played r = None \<and> npXg r = None \<and> xAG r = None \<and> in_squad r
        \<and> playerName r \<notin> played_players \<and> playerName r \<noteq> []"
    by (auto simp: lineup_unused_subs_def unused_sub_row_def bench_listed_players_def
        split: option.splits)
  then show ?thesis
    unfolding eq by auto
qed

theorem unused_substitutes_synthetic_rows_witness:
  "extract_unused_subs_from_lineups example_document {''Saka'', ''Jesus''}
      ''18bb7c10'' ''/en/matches/18bb7c10/''
     = [unused_sub_row ''18bb7c10'' ''/en/matches/18bb7c10/'' ''Arsenal'' ''Nketiah'']"
proof -
  have e: "concat (map (lineup_unused_subs {''Saka'', ''Jesus''} ''18bb7c10''
              ''/en/matches/18bb7c10/'')
         (find_all_class ''div'' ''lineup'' example_document))
     = [unused_sub_row ''18bb7c10'' ''/en/matches/18bb7c10/'' ''Arsenal'' ''Nketiah'']"
    by code_simp
  show ?thesis
    using unused_substitutes_synthetic_rows [where soup = example_document
        and played_players = "{''Saka'', ''Jesus''}" and match_id = "''18bb7c10''"
        and match_url = "''/en/matches/18bb7c10/''"] e
    by simp
qed

section \<open>The orchestrating loops: properties\<close>

lemma main_loop_all_processed:
  "set urls \<subseteq> processed st \<Longrightarrow> main_loop E idx urls st = st"
  by (induction urls arbitrary: idx) auto

lemma processed_loop_mono: "P \<subseteq> processed_loop loads f P"
proof (induction f arbitrary: P)
  case Nil
  then show ?case by simp
next
  case (Cons line f)
  have "insert u P \<subseteq> processed_loop loads f (insert u P)" for u
    by (rule Cons.IH)
  then show ?case
    using Cons.IH [of P]
    by (auto split: option.splits json.splits)
qed

lemma processed_loop_member:
  "line \<in> set f \<Longrightarrow> loads line = Some (JObj items) \<Longrightarrow>
   map_of items ''matchUrl'' = Some (JStr u) \<Longrightarrow> u \<in> processed_loop loads f P"
proof (induction f arbitrary: P)
  case Nil
  then show ?case by simp
next
  case (Cons l f)
  show ?case
  proof (cases "line = l")
    case True
    then show ?thesis
      using Cons.prems processed_loop_mono [of "insert u P" loads f] by auto
  next
    case False
    then have "line \<in> set f" using Cons.prems by simp
    then have "u \<in> processed_loop loads f Q" for Q
      using Cons.IH Cons.prems by blast
    then show ?thesis
      by (auto split: option.splits json.splits)
  qed
qed

lemma player_rows_loop_matchUrl:
  "\<forall>r \<in> set rows. matchUrl r = url \<Longrightarrow>
   \<forall>r \<in> set (player_rows_loop team mid url trs flag rows). matchUrl r = url"
proof (induction trs arbitrary: flag rows)
  case Nil
  then show ?case by simp
next
  case (Cons tr trs)
  have step: "(\<forall>r \<in> set (player_rows_loop team mid url trs fl rs). matchUrl r = url) = True"
    if "\<forall>r \<in> set rs. matchUrl r = url" for fl rs
    using Cons.IH [OF that] by simp
  show ?case
    using Cons.prems
    by (simp add: Let_def step split: option.splits)
qed

lemma tables_loop_matchUrl:
  "\<forall>r \<in> set results. matchUrl r = url \<Longrightarrow>
   \<forall>r \<in> set (snd (tables_loop url starters tbls played results)). matchUrl r = url"
proof (induction tbls arbitrary: played results)
  case Nil
  then show ?case by simp
next
  case (Cons tbl tbls)
  have rows: "\<forall>r \<in> set (extract_player_rows_from_table tbl team mid url). matchUrl r = url"
    for team mid
    using player_rows_loop_matchUrl [of "[]" url]
    by (auto simp: extract_player_rows_from_table_def split: option.splits)
  show ?case
  proof (cases "find ''caption'' tbl")
    case None
    then show ?thesis using Cons by simp
  next
    case (Some caption_el)
    define rows1 where "rows1 =
      (let rows0 = extract_player_rows_from_table tbl
           (strip_with isspace (replace ''Player Stats'' [] (get_text_strip caption_el)))
           (match_id_of url) url
       in if starters \<noteq> {}
          then map (\<lambda>r. r\<lparr>started := playerName r \<in> starters\<rparr>) rows0 else rows0)"
    have "\<forall>r \<in> set rows1. matchUrl r = url"
      using rows by (auto simp: rows1_def Let_def)
    then have ok: "\<forall>r \<in> set (results @ rows1). matchUrl r = url"
      using Cons.prems by auto
    have "tables_loop url starters (tbl # tbls) played results
        = tables_loop url starters tbls (played \<union> set (map playerName rows1)) (results @ rows1)"
      using Some by (simp add: rows1_def Let_def)
    then show ?thesis
      using Cons.IH [OF ok] by simp
  qed
qed

lemma extract_from_soup_matchUrl:
  "r \<in> set (extract_from_soup parse soup url) \<Longrightarrow> matchUrl r = url"
proof -
  assume r: "r \<in> set (extract_from_soup parse soup url)"
  obtain played rows where
    t: "tables_loop url (get_lineup_starters soup) (candidate_tables parse soup) {} [] = (played, rows)"
    by (cases "tables_loop url (get_lineup_starters soup) (candidate_tables parse soup) {} []")
  have a: "\<forall>r \<in> set rows. matchUrl r = url"
    using tables_loop_matchUrl [of "[]" url "get_lineup_starters soup" "candidate_tables parse soup" "{}"] t
    by simp
  have b: "\<forall>r \<in> set (extract_unused_subs_from_lineups soup played mid url). matchUrl r = url" for mid
    by (auto simp: extract_unused_subs_from_lineups_def unused_subs_loop_eq lineup_unused_subs_def
        unused_sub_row_def split: option.splits)
  show ?thesis
    using r a b t by (auto simp: extract_from_soup_def)
qed

lemma save_failure_log: "OUTPUT_JSONL (save_failure url reason fs) = OUTPUT_JSONL fs"
  by (simp add: save_failure_def)

lemma rebuild_log: "OUTPUT_JSONL (rebuild_full_json_from_jsonl loads fs) = OUTPUT_JSONL fs"
  by (simp add: rebuild_full_json_from_jsonl_def split: option.splits)

lemma asdict_matchUrl: "asdict r = JObj items \<Longrightarrow> map_of items ''matchUrl'' = Some (JStr (matchUrl r))"
  by (auto simp: asdict_def)

text \<open>
  C2. The loop counts a document with no rows as a failure but does not compare the count
  with the cutoff on that path: with six fixtures whose reports download and hold no
  stats table, all six are fetched and the run ends with six consecutive failures in the
  ledger. With five addresses that cannot be fetched, the run stops before the sixth.
\<close>

theorem zero_row_failures_pass_the_cutoff:
  "fetched (main example_env
       (map example_fixture [''/m1'', ''/m2'', ''/m3'', ''/m4'', ''/m5'', ''/m6''])
       \<lparr>OUTPUT_JSONL = None, OUTPUT_JSON = None, FAIL_LOG = []\<rparr>)
     = [''https://fbref.com/m1'', ''https://fbref.com/m2'', ''https://fbref.com/m3'',
        ''https://fbref.com/m4'', ''https://fbref.com/m5'', ''https://fbref.com/m6'']
   \<and> consecutive_fails (main example_env
       (map example_fixture [''/m1'', ''/m2'', ''/m3'', ''/m4'', ''/m5'', ''/m6''])
       \<lparr>OUTPUT_JSONL = None, OUTPUT_JSON = None, FAIL_LOG = []\<rparr>) = 6
   \<and> map snd (FAIL_LOG (disk (main example_env
       (map example_fixture [''/m1'', ''/m2'', ''/m3'', ''/m4'', ''/m5'', ''/m6''])
       \<lparr>OUTPUT_JSONL = None, OUTPUT_JSON = None, FAIL_LOG = []\<rparr>)))
     = [no_rows, no_rows, no_rows, no_rows, no_rows, no_rows]
   \<and> fetched (main example_env
       (map example_fixture [''/down'', ''/down'', ''/down'', ''/down'', ''/down'', ''/m6''])
       \<lparr>OUTPUT_JSONL = None, OUTPUT_JSON = None, FAIL_LOG = []\<rparr>)
     = [''https://fbref.com/down'', ''https://fbref.com/down'', ''https://fbref.com/down'',
        ''https://fbref.com/down'', ''https://fbref.com/down'']"
  by code_simp

lemma main_loop_single_log:
  assumes "url \<in> processed st
           \<or> (env_request_html E idx url = Some html
               \<and> extract_from_html (env_parse E) html url = Some [])"
  shows "OUTPUT_JSONL (disk (main_loop E idx [url] st)) = OUTPUT_JSONL (disk st)"
proof (cases "url \<in> processed st")
  case True
  then show ?thesis by simp
next
  case False
  then have h: "env_request_html E idx url = Some html"
    and e: "extract_from_html (env_parse E) html url = Some []"
    using assms by auto
  show ?thesis
  proof (cases "html = []")
    case True
    then show ?thesis
      using False h by (simp add: Let_def save_failure_log)
  next
    case nonempty: False
    then show ?thesis
      using False h e by (simp add: Let_def save_failure_log)
  qed
qed

lemma augment_loop_single_log:
  assumes "env_request_html E i url = Some html"
    and "extract_from_html (env_parse E) html url = Some rows"
    and "\<forall>r \<in> set rows. (playerName r, teamName r)
           \<in> (case existing st url of None \<Rightarrow> {} | Some s \<Rightarrow> s)"
  shows "OUTPUT_JSONL (aug_disk (augment_loop E i [url] st)) = OUTPUT_JSONL (aug_disk st)"
proof -
  have "filter (\<lambda>r. minutes_played r = None \<and> (playerName r, teamName r)
            \<notin> (case existing st url of None \<Rightarrow> {} | Some s \<Rightarrow> s)) rows = []"
    using assms(3) by (auto simp: filter_empty_conv)
  then show ?thesis
    using assms(1,2) by (simp add: Let_def)
qed

text \<open>
  C8. A run over one document whose rows are all stored already appends nothing: in the
  extraction script, when the log holds the encodings of all rows of the document (and
  the decoder gives these rows back), every row carries the address of the document, so
  the address is in the index loaded at the start and the document is skipped (a
  document with no row is recorded as a failure); in the augmenting script, when the
  player and team of every row are in the index loaded from the snapshot. In both the
  log after the run is the log before it.
\<close>

theorem rerun_appends_nothing:
  "((\<forall>r \<in> set rows. env_loads E (env_dumps E (asdict r)) = Some (asdict r))
      \<and> fixture_urls fixtures = [url]
      \<and> env_request_html E 1 url = Some html
      \<and> extract_from_html (env_parse E) html url = Some rows
      \<and> OUTPUT_JSONL fs = Some f
      \<and> set (map (\<lambda>r. env_dumps E (asdict r)) rows) \<subseteq> set f
    \<longrightarrow> OUTPUT_JSONL (disk (main E fixtures fs)) = OUTPUT_JSONL fs)
   \<and> (augment_urls fixtures = [url]
      \<and> env_request_html E 1 url = Some html
      \<and> extract_from_html (env_parse E) html url = Some rows
      \<and> (\<forall>r \<in> set rows. (playerName r, teamName r)
            \<in> (case load_existing_index appear_json url of None \<Rightarrow> {} | Some s \<Rightarrow> s))
    \<longrightarrow> OUTPUT_JSONL (aug_disk (augment_main E fixtures appear_json fs)) = OUTPUT_JSONL fs)"
proof (intro conjI impI)
  assume a: "(\<forall>r \<in> set rows. env_loads E (env_dumps E (asdict r)) = Some (asdict r))
      \<and> fixture_urls fixtures = [url]
      \<and> env_request_html E 1 url = Some html
      \<and> extract_from_html (env_parse E) html url = Some rows
      \<and> OUTPUT_JSONL fs = Some f
      \<and> set (map (\<lambda>r. env_dumps E (asdict r)) rows) \<subseteq> set f"
  define st where "st = \<lparr>processed = load_already_processed_urls (env_loads E) fs,
      consecutive_fails = 0, batch_counter = 0, total_saved_rows = 0, disk = fs, fetched = []\<rparr>"
  have "url \<in> processed st
        \<or> (env_request_html E 1 url = Some html
            \<and> extract_from_html (env_parse E) html url = Some [])"
  proof (cases rows)
    case Nil
    then show ?thesis using a by simp
  next
    case (Cons r rows')
    then have r: "r \<in> set rows" by simp
    obtain soup where "env_parse E html = Some soup"
      and "rows = extract_from_soup (env_parse E) soup url"
      using a by (auto simp: extract_from_html_def)
    then have u: "matchUrl r = url"
      using r extract_from_soup_matchUrl by blast
    have line: "env_dumps E (asdict r) \<in> set f"
      using a r by auto
    obtain items where items: "asdict r = JObj items"
      by (auto simp: asdict_def)
    have "env_loads E (env_dumps E (asdict r)) = Some (JObj items)"
      using a r items by auto
    then have "url \<in> processed_loop (env_loads E) f {}"
      using processed_loop_member [OF line, of "env_loads E" items url "{}"]
        asdict_matchUrl [OF items] u by simp
    then show ?thesis
      using a by (simp add: st_def load_already_processed_urls_def)
  qed
  then have "OUTPUT_JSONL (disk (main_loop E 1 [url] st)) = OUTPUT_JSONL (disk st)"
    by (rule main_loop_single_log)
  then show "OUTPUT_JSONL (disk (main E fixtures fs)) = OUTPUT_JSONL fs"
    using a by (simp add: main_def Let_def rebuild_log st_def)
next
  assume b: "augment_urls fixtures = [url]
      \<and> env_request_html E 1 url = Some html
      \<and> extract_from_html (env_parse E) html url = Some rows
      \<and> (\<forall>r \<in> set rows. (playerName r, teamName r)
            \<in> (case load_existing_index appear_json url of None \<Rightarrow> {} | Some s \<Rightarrow> s))"
  define st where "st = \<lparr>existing = load_existing_index appear_json, added_rows = 0,
      processed_urls = 0, aug_disk = fs\<rparr>"
  have "OUTPUT_JSONL (aug_disk (augment_loop E 1 [url] st)) = OUTPUT_JSONL (aug_disk st)"
    using b by (intro augment_loop_single_log [where html = html and rows = rows])
      (simp_all add: st_def)
  then show "OUTPUT_JSONL (aug_disk (augment_main E fixtures appear_json fs)) = OUTPUT_JSONL fs"
    using b by (simp add: augment_main_def Let_def rebuild_log st_def)
qed

theorem rerun_appends_nothing_witness:
  "map playerName example_rows = [''Saka'', ''Jesus'', ''Nketiah'']
   \<and> OUTPUT_JSONL (disk (main example_env [example_fixture ''/en/matches/18bb7c10/''] example_files))
       = Some [''Saka'', ''Jesus'', ''Nketiah'']
   \<and> OUTPUT_JSONL (aug_disk (augment_main example_env [example_fixture ''/en/matches/18bb7c10/'']
         (Some example_rows) example_files))
       = Some [''Saka'', ''Jesus'', ''Nketiah'']"
proof -
  have n: "map playerName example_rows = [''Saka'', ''Jesus'', ''Nketiah'']"
    by code_simp
  have h1: "\<forall>r \<in> set example_rows.
      env_loads example_env (env_dumps example_env (asdict r)) = Some (asdict r)"
    by code_simp
  have h2: "fixture_urls [example_fixture ''/en/matches/18bb7c10/'']
      = [''https://fbref.com/en/matches/18bb7c10/'']"
    by code_simp
  have h3: "env_request_html example_env 1 ''https://fbref.com/en/matches/18bb7c10/''
      = Some ''<html>report</html>''"
    by code_simp
  have h4: "extract_from_html (env_parse example_env) ''<html>report</html>''
      ''https://fbref.com/en/matches/18bb7c10/'' = Some example_rows"
    by code_simp
  have h5: "OUTPUT_JSONL example_files = Some [''Saka'', ''Jesus'', ''Nketiah'']"
    by code_simp
  have h6: "set (map (\<lambda>r. env_dumps example_env (asdict r)) example_rows)
      \<subseteq> set [''Saka'', ''Jesus'', ''Nketiah'']"
    by code_simp
  have h7: "augment_urls [example_fixture ''/en/matches/18bb7c10/'']
      = [''https://fbref.com/en/matches/18bb7c10/'']"
    by code_simp
  have h8: "\<forall>r \<in> set example_rows. (playerName r, teamName r)
      \<in> (case load_existing_index (Some example_rows) ''https://fbref.com/en/matches/18bb7c10/''
          of None \<Rightarrow> {} | Some s \<Rightarrow> s)"
    by code_simp
  show ?thesis
    using rerun_appends_nothing [where E = example_env
        and fixtures = "[example_fixture ''/en/matches/18bb7c10/'']"
        and url = "''https://fbref.com/en/matches/18bb7c10/''"
        and html = "''<html>report</html>''" and rows = example_rows
        and fs = example_files and f = "[''Saka'', ''Jesus'', ''Nketiah'']"
        and appear_json = "Some example_rows"]
      n h1 h2 h3 h4 h5 h6 h7 h8
    by simp
qed

section \<open>The coverage check: properties\<close>

lemma fixture_urls_loop_eq:
  "fixture_urls_loop urljoin fixtures S =
     S \<union> to_abs_url_join urljoin `
           {u. u \<noteq> [] \<and> (\<exists>v \<in> set fixtures. py_or (match_report_url v) (matchReportUrl v) = Some u)}"
  by (induction fixtures arbitrary: S) (auto split: option.splits)

lemma fixture_urls_loop_finite:
  "finite S \<Longrightarrow> finite (fixture_urls_loop urljoin fixtures S)"
  by (induction fixtures arbitrary: S) (auto split: option.splits)

lemma setdefault_add_keys:
  "map fst (setdefault_add mu tn d) = (if mu \<in> set (map fst d) then map fst d else map fst d @ [mu])"
  by (auto simp: setdefault_add_def split: prod.splits)

lemma teams_at_setdefault_add:
  "teams_at (setdefault_add mu tn d) u =
     (if u = mu then insert tn (teams_at d mu) else teams_at d u)"
proof (cases "mu \<in> set (map fst d)")
  case True
  have "map_of (map (\<lambda>(k, teams). if k = mu then (k, insert tn teams) else (k, teams)) d) u
      = map_option (\<lambda>teams. if u = mu then insert tn teams else teams) (map_of d u)"
    by (induction d) auto
  moreover have "map_of d mu \<noteq> None"
    using True by (simp add: map_of_eq_None_iff)
  ultimately show ?thesis
    using True by (auto simp: setdefault_add_def teams_at_def split: option.splits)
next
  case False
  then have "map_of d mu = None"
    by (simp add: map_of_eq_None_iff)
  then show ?thesis
    using False by (auto simp: setdefault_add_def teams_at_def map_add_def split: option.splits)
qed

lemma remdups_snoc:
  "remdups (xs @ [u]) = filter (\<lambda>x. x \<noteq> u) (remdups xs) @ [u]"
  by (induction xs) auto

lemma first_Cons:
  "rev (remdups (rev (u # us))) = u # filter (\<lambda>x. x \<noteq> u) (rev (remdups (rev us)))"
  by (simp add: remdups_snoc rev_filter)

lemma setdefault_add_key_set:
  "fst ` set (setdefault_add mu tn d) = insert mu (fst ` set d)"
proof -
  have "set (map fst (setdefault_add mu tn d)) = insert mu (set (map fst d))"
    unfolding setdefault_add_keys by auto
  then show ?thesis by simp
qed

lemma loop_keys:
  "map fst (snd (per_match_teams_loop rows rows_out d)) =
     map fst d @ filter (\<lambda>u. u \<notin> set (map fst d)) (first_seen rows)"
proof (induction rows arbitrary: rows_out d)
  case Nil
  then show ?case by (simp add: first_seen_def)
next
  case (Cons r rows)
  show ?case
  proof (cases "matchUrl r = []")
    case True
    then show ?thesis
      using Cons.IH by (simp add: Let_def first_seen_def)
  next
    case False
    have fs: "first_seen (r # rows) = matchUrl r # filter (\<lambda>x. x \<noteq> matchUrl r) (first_seen rows)"
      using False first_Cons [of "matchUrl r"] by (simp add: first_seen_def)
    show ?thesis
    proof (cases "matchUrl r \<in> set (map fst d)")
      case True
      have "filter (\<lambda>u. u \<notin> set (map fst d)) (filter (\<lambda>x. x \<noteq> matchUrl r) (first_seen rows))
          = filter (\<lambda>u. u \<notin> set (map fst d)) (first_seen rows)"
        using True by (auto intro: filter_cong)
      then show ?thesis
        using False True Cons.IH fs
        by (simp add: Let_def setdefault_add_keys setdefault_add_key_set insert_absorb)
    next
      case notin: False
      have "filter (\<lambda>u. u \<notin> set (map fst d) \<and> u \<noteq> matchUrl r) (first_seen rows)
          = filter (\<lambda>u. u \<notin> set (map fst d)) (filter (\<lambda>x. x \<noteq> matchUrl r) (first_seen rows))"
        by (auto intro: filter_cong)
      then show ?thesis
        using False notin Cons.IH [of _ "setdefault_add (matchUrl r) (normalize_team (teamName r)) d"] fs
        by (simp add: Let_def setdefault_add_keys setdefault_add_key_set conj_commute)
    qed
  qed
qed

lemma loop_teams:
  "teams_at (snd (per_match_teams_loop rows rows_out d)) u =
     teams_at d u \<union> (if u = [] then {} else teams_of rows u)"
proof (induction rows arbitrary: rows_out d)
  case Nil
  then show ?case by (simp add: teams_of_def)
next
  case (Cons r rows)
  show ?case
    using Cons.IH
    by (auto simp: Let_def teams_at_setdefault_add teams_of_def)
qed

lemma loop_distinct:
  "distinct (map fst d) \<Longrightarrow> distinct (map fst (snd (per_match_teams_loop rows rows_out d)))"
  by (auto simp: loop_keys first_seen_def)

lemma distinct_assoc_eq:
  assumes "distinct (map fst d)"
  shows "d = map (\<lambda>k. (k, the (map_of d k))) (map fst d)"
proof -
  have "(fst p, the (map_of d (fst p))) = p" if "p \<in> set d" for p
  proof -
    have "map_of d (fst p) = Some (snd p)"
      using assms that by (simp add: map_of_eq_Some_iff)
    then show ?thesis by simp
  qed
  then have "map (\<lambda>p. (fst p, the (map_of d (fst p)))) d = map (\<lambda>p. p) d"
    by (intro map_cong) auto
  then show ?thesis by (simp add: o_def)
qed

lemma teams_at_empty: "teams_at [] u = {}"
  by (simp add: teams_at_def)

lemma loop_result:
  "snd (per_match_teams_loop rows [] []) = map (\<lambda>u. (u, teams_of rows u)) (first_seen rows)"
proof -
  define d where "d = snd (per_match_teams_loop rows [] [])"
  have keys: "map fst d = first_seen rows"
    unfolding d_def using loop_keys [of rows "[]" "[]"] by simp
  have dist: "distinct (map fst d)"
    unfolding d_def by (rule loop_distinct) simp
  have teams: "teams_at d u = (if u = [] then {} else teams_of rows u)" for u
    unfolding d_def by (simp only: loop_teams teams_at_empty Un_empty_left)
  have val: "the (map_of d u) = teams_of rows u" if "u \<in> set (first_seen rows)" for u
  proof -
    have ne: "u \<noteq> []"
      using that unfolding first_seen_def by simp
    have "u \<in> fst ` set d"
      using that keys by (metis set_map)
    then obtain t where t: "map_of d u = Some t"
      by (meson map_of_eq_None_iff not_None_eq)
    then have "teams_at d u = t"
      by (simp add: teams_at_def)
    then show ?thesis
      using teams [of u] ne t by simp
  qed
  have "d = map (\<lambda>k. (k, the (map_of d k))) (map fst d)"
    using dist by (rule distinct_assoc_eq)
  also have "\<dots> = map (\<lambda>k. (k, the (map_of d k))) (first_seen rows)"
    by (simp only: keys)
  also have "\<dots> = map (\<lambda>u. (u, teams_of rows u)) (first_seen rows)"
    by (rule map_cong) (simp_all add: val)
  finally show ?thesis
    unfolding d_def .
qed

lemma incomplete_loop_eq:
  "incomplete_loop items acc =
     acc @ map (\<lambda>(u, teams). (u, sorted_list_of_set teams)) (filter (\<lambda>(u, teams). card teams \<noteq> 2) items)"
  by (induction items acc rule: incomplete_loop.induct) auto

lemma incomplete_eq:
  "incomplete (check_main urljoin fixtures rows) =
     map (\<lambda>u. (u, sorted_list_of_set (teams_of rows u)))
       (filter (\<lambda>u. card (teams_of rows u) \<noteq> 2) (first_seen rows))"
proof -
  obtain n d where nd: "per_match_teams_loop rows [] [] = (n, d)"
    by (cases "per_match_teams_loop rows [] []")
  then have d: "d = map (\<lambda>u. (u, teams_of rows u)) (first_seen rows)"
    using loop_result [of rows] by simp
  have "incomplete (check_main urljoin fixtures rows) = incomplete_loop d []"
    by (simp only: check_main_def Let_def nd prod.case report.select_convs)
  also have "\<dots> = map (\<lambda>(u, teams). (u, sorted_list_of_set teams))
      (filter (\<lambda>(u, teams). card teams \<noteq> 2) d)"
    by (simp only: incomplete_loop_eq append_Nil)
  also have "\<dots> = map (\<lambda>u. (u, sorted_list_of_set (teams_of rows u)))
       (filter (\<lambda>u. card (teams_of rows u) \<noteq> 2) (first_seen rows))"
    unfolding d by (simp add: filter_map o_def)
  finally show ?thesis .
qed

lemma first_seen_set: "set (first_seen rows) = {u \<in> matchUrl ` set rows. u \<noteq> []}"
  unfolding first_seen_def by auto

lemma present_urls_eq:
  "set (map fst (snd (per_match_teams_loop rows [] []))) = {u \<in> matchUrl ` set rows. u \<noteq> []}"
proof -
  have "map fst (snd (per_match_teams_loop rows [] [])) = first_seen rows"
    using loop_keys [of rows "[]" "[]"] by simp
  then show ?thesis by (simp only: first_seen_set)
qed

lemma missing_extra_eq:
  "missing_urls (check_main urljoin fixtures rows)
     = sorted_list_of_set {u \<in> fixture_urls_loop urljoin fixtures {}.
         u \<notin> set (map fst (snd (per_match_teams_loop rows [] [])))}
   \<and> extra_urls (check_main urljoin fixtures rows)
     = sorted_list_of_set {u \<in> set (map fst (snd (per_match_teams_loop rows [] []))).
         u \<notin> fixture_urls_loop urljoin fixtures {}}"
proof -
  obtain n d where nd: "per_match_teams_loop rows [] [] = (n, d)"
    by (cases "per_match_teams_loop rows [] []")
  show ?thesis
    by (simp only: check_main_def Let_def nd prod.case report.select_convs snd_conv simp_thms)
qed

text \<open>
  C4 (as amended). The missing URLs are the fixture URLs that are not present, and the
  extra URLs the present URLs that are not fixture URLs, where the present URLs are the
  non-empty match URLs of the snapshot and the fixture URLs the absolute URLs of the
  fixtures with a report link. A match URL is reported incomplete, with its sorted
  distinct normalised team names, exactly when it is present and the number of distinct
  team names after alias normalisation differs from 2.
\<close>

theorem reconciler_missing_extra_incomplete:
  "set (missing_urls (check_main urljoin fixtures rows))
     = fixture_urls_loop urljoin fixtures {} - {u \<in> matchUrl ` set rows. u \<noteq> []}
   \<and> set (extra_urls (check_main urljoin fixtures rows))
     = {u \<in> matchUrl ` set rows. u \<noteq> []} - fixture_urls_loop urljoin fixtures {}
   \<and> ((u, ts) \<in> set (incomplete (check_main urljoin fixtures rows))
        \<longleftrightarrow> u \<in> matchUrl ` set rows \<and> u \<noteq> [] \<and> card (teams_of rows u) \<noteq> 2
            \<and> ts = sorted_list_of_set (teams_of rows u))
   \<and> fixture_urls_loop urljoin fixtures {}
     = to_abs_url_join urljoin `
         {l. l \<noteq> [] \<and> (\<exists>v \<in> set fixtures. py_or (match_report_url v) (matchReportUrl v) = Some l)}"
proof (intro conjI)
  let ?S = "fixture_urls_loop urljoin fixtures {}"
  let ?P = "{u \<in> matchUrl ` set rows. u \<noteq> []}"
  have fS: "finite ?S"
    by (rule fixture_urls_loop_finite) simp
  have fP: "finite ?P"
    by simp
  have P: "set (map fst (snd (per_match_teams_loop rows [] []))) = ?P"
    by (rule present_urls_eq)
  have "missing_urls (check_main urljoin fixtures rows) = sorted_list_of_set {u \<in> ?S. u \<notin> ?P}"
    using missing_extra_eq [of urljoin fixtures rows] by (simp only: P)
  moreover have "finite {u \<in> ?S. u \<notin> ?P}"
    using fS by simp
  ultimately show "set (missing_urls (check_main urljoin fixtures rows)) = ?S - ?P"
    by auto
  have "extra_urls (check_main urljoin fixtures rows) = sorted_list_of_set {u \<in> ?P. u \<notin> ?S}"
    using missing_extra_eq [of urljoin fixtures rows] by (simp only: P)
  moreover have "finite {u \<in> ?P. u \<notin> ?S}"
    using fP by simp
  ultimately show "set (extra_urls (check_main urljoin fixtures rows)) = ?P - ?S"
    by auto
  show "(u, ts) \<in> set (incomplete (check_main urljoin fixtures rows))
        \<longleftrightarrow> u \<in> matchUrl ` set rows \<and> u \<noteq> [] \<and> card (teams_of rows u) \<noteq> 2
            \<and> ts = sorted_list_of_set (teams_of rows u)"
    unfolding incomplete_eq using first_seen_set [of rows] by auto
  show "?S = to_abs_url_join urljoin `
         {l. l \<noteq> [] \<and> (\<exists>v \<in> set fixtures. py_or (match_report_url v) (matchReportUrl v) = Some l)}"
    by (simp add: fixture_urls_loop_eq)
qed

theorem reconciler_missing_extra_incomplete_witness:
  "missing_urls (check_main (\<lambda>base url. base @ url)
       (map example_fixture [''https://fbref.com/A'', ''https://fbref.com/B'', ''https://fbref.com/C''])
       [example_snapshot_row ''https://fbref.com/A'' ''Team1'',
        example_snapshot_row ''https://fbref.com/B'' ''Team1'',
        example_snapshot_row ''https://fbref.com/B'' ''Team2''])
     = [''https://fbref.com/C'']
   \<and> extra_urls (check_main (\<lambda>base url. base @ url)
       (map example_fixture [''https://fbref.com/A'', ''https://fbref.com/B'', ''https://fbref.com/C''])
       [example_snapshot_row ''https://fbref.com/A'' ''Team1'',
        example_snapshot_row ''https://fbref.com/B'' ''Team1'',
        example_snapshot_row ''https://fbref.com/B'' ''Team2''])
     = []
   \<and> (''https://fbref.com/A'', [''Team1''])
       \<in> set (incomplete (check_main (\<lambda>base url. base @ url)
       (map example_fixture [''https://fbref.com/A'', ''https://fbref.com/B'', ''https://fbref.com/C''])
       [example_snapshot_row ''https://fbref.com/A'' ''Team1'',
        example_snapshot_row ''https://fbref.com/B'' ''Team1'',
        example_snapshot_row ''https://fbref.com/B'' ''Team2'']))"
proof -
  have m: "missing_urls (check_main (\<lambda>base url. base @ url)
       (map example_fixture [''https://fbref.com/A'', ''https://fbref.com/B'', ''https://fbref.com/C''])
       [example_snapshot_row ''https://fbref.com/A'' ''Team1'',
        example_snapshot_row ''https://fbref.com/B'' ''Team1'',
        example_snapshot_row ''https://fbref.com/B'' ''Team2''])
     = [''https://fbref.com/C'']"
    by code_simp
  have e: "extra_urls (check_main (\<lambda>base url. base @ url)
       (map example_fixture [''https://fbref.com/A'', ''https://fbref.com/B'', ''https://fbref.com/C''])
       [example_snapshot_row ''https://fbref.com/A'' ''Team1'',
        example_snapshot_row ''https://fbref.com/B'' ''Team1'',
        example_snapshot_row ''https://fbref.com/B'' ''Team2''])
     = []"
    by code_simp
  have t: "''https://fbref.com/A'' \<in> matchUrl ` set
       [example_snapshot_row ''https://fbref.com/A'' ''Team1'',
        example_snapshot_row ''https://fbref.com/B'' ''Team1'',
        example_snapshot_row ''https://fbref.com/B'' ''Team2'']
     \<and> card (teams_of [example_snapshot_row ''https://fbref.com/A'' ''Team1'',
        example_snapshot_row ''https://fbref.com/B'' ''Team1'',
        example_snapshot_row ''https://fbref.com/B'' ''Team2''] ''https://fbref.com/A'') \<noteq> 2
     \<and> [''Team1''] = sorted_list_of_set (teams_of [example_snapshot_row ''https://fbref.com/A'' ''Team1'',
        example_snapshot_row ''https://fbref.com/B'' ''Team1'',
        example_snapshot_row ''https://fbref.com/B'' ''Team2''] ''https://fbref.com/A'')"
    by code_simp
  show ?thesis
    using reconciler_missing_extra_incomplete [where urljoin = "\<lambda>base url. base @ url"
        and fixtures = "map example_fixture [''https://fbref.com/A'', ''https://fbref.com/B'', ''https://fbref.com/C'']"
        and rows = "[example_snapshot_row ''https://fbref.com/A'' ''Team1'',
        example_snapshot_row ''https://fbref.com/B'' ''Team1'',
        example_snapshot_row ''https://fbref.com/B'' ''Team2'']"
        and u = "''https://fbref.com/A''" and ts = "[''Team1'']"] m e t
    by simp
qed

text \<open>
  The claim as stated fails: the snapshot records two distinct team names for the match,
  and the match is reported incomplete, because both names are aliases of one team.
\<close>

theorem alias_names_counterexample:
  "map matchUrl [example_snapshot_row ''https://fbref.com/A'' ''Man Utd'',
                 example_snapshot_row ''https://fbref.com/A'' ''Manchester Utd'']
     = [''https://fbref.com/A'', ''https://fbref.com/A'']
   \<and> card (set (map teamName [example_snapshot_row ''https://fbref.com/A'' ''Man Utd'',
                 example_snapshot_row ''https://fbref.com/A'' ''Manchester Utd''])) = 2
   \<and> incomplete (check_main (\<lambda>base url. base @ url) []
         [example_snapshot_row ''https://fbref.com/A'' ''Man Utd'',
          example_snapshot_row ''https://fbref.com/A'' ''Manchester Utd''])
     = [(''https://fbref.com/A'', [''Manchester United''])]"
  by code_simp

text \<open>
  C5 (as amended). The missing and the extra URLs are sorted, without repetition; the
  incomplete matches are in the order in which their URLs first appear in the snapshot,
  each with its team names sorted.
\<close>

theorem reconciler_report_order:
  "sorted (missing_urls (check_main urljoin fixtures rows))
   \<and> distinct (missing_urls (check_main urljoin fixtures rows))
   \<and> sorted (extra_urls (check_main urljoin fixtures rows))
   \<and> distinct (extra_urls (check_main urljoin fixtures rows))
   \<and> map fst (incomplete (check_main urljoin fixtures rows))
       = filter (\<lambda>u. card (teams_of rows u) \<noteq> 2) (first_seen rows)
   \<and> (\<forall>e \<in> set (incomplete (check_main urljoin fixtures rows)). sorted (snd e) \<and> distinct (snd e))"
proof (intro conjI)
  show "sorted (missing_urls (check_main urljoin fixtures rows))"
    and "distinct (missing_urls (check_main urljoin fixtures rows))"
    and "sorted (extra_urls (check_main urljoin fixtures rows))"
    and "distinct (extra_urls (check_main urljoin fixtures rows))"
    by (simp_all only: missing_extra_eq sorted_sorted_list_of_set distinct_sorted_list_of_set)
  show "map fst (incomplete (check_main urljoin fixtures rows))
       = filter (\<lambda>u. card (teams_of rows u) \<noteq> 2) (first_seen rows)"
    by (simp add: incomplete_eq o_def)
  show "\<forall>e \<in> set (incomplete (check_main urljoin fixtures rows)). sorted (snd e) \<and> distinct (snd e)"
    unfolding incomplete_eq by auto
qed

theorem reconciler_report_order_witness:
  "map fst (incomplete (check_main (\<lambda>base url. base @ url) []
         [example_snapshot_row ''https://fbref.com/B'' ''Team2'',
          example_snapshot_row ''https://fbref.com/A'' ''Team1'',
          example_snapshot_row ''https://fbref.com/B'' ''Team1'',
          example_snapshot_row ''https://fbref.com/C'' ''Team1'']))
     = [''https://fbref.com/A'', ''https://fbref.com/C'']
   \<and> sorted (extra_urls (check_main (\<lambda>base url. base @ url) []
         [example_snapshot_row ''https://fbref.com/B'' ''Team2'',
          example_snapshot_row ''https://fbref.com/A'' ''Team1'',
          example_snapshot_row ''https://fbref.com/B'' ''Team1'',
          example_snapshot_row ''https://fbref.com/C'' ''Team1'']))"
proof -
  have "filter (\<lambda>u. card (teams_of
         [example_snapshot_row ''https://fbref.com/B'' ''Team2'',
          example_snapshot_row ''https://fbref.com/A'' ''Team1'',
          example_snapshot_row ''https://fbref.com/B'' ''Team1'',
          example_snapshot_row ''https://fbref.com/C'' ''Team1''] u) \<noteq> 2)
       (first_seen [example_snapshot_row ''https://fbref.com/B'' ''Team2'',
          example_snapshot_row ''https://fbref.com/A'' ''Team1'',
          example_snapshot_row ''https://fbref.com/B'' ''Team1'',
          example_snapshot_row ''https://fbref.com/C'' ''Team1''])
     = [''https://fbref.com/A'', ''https://fbref.com/C'']"
    by code_simp
  then show ?thesis
    using reconciler_report_order [where urljoin = "\<lambda>base url. base @ url" and fixtures = "[]"
        and rows = "[example_snapshot_row ''https://fbref.com/B'' ''Team2'',
          example_snapshot_row ''https://fbref.com/A'' ''Team1'',
          example_snapshot_row ''https://fbref.com/B'' ''Team1'',
          example_snapshot_row ''https://fbref.com/C'' ''Team1'']"]
    by simp
qed

text \<open>
  The claim as stated fails: the incomplete matches keep the order of the snapshot, here
  B before A.
\<close>

theorem incomplete_not_sorted_counterexample:
  "incomplete (check_main (\<lambda>base url. base @ url) []
         [example_snapshot_row ''https://fbref.com/B'' ''Team1'',
          example_snapshot_row ''https://fbref.com/A'' ''Team1''])
     = [(''https://fbref.com/B'', [''Team1'']), (''https://fbref.com/A'', [''Team1''])]
   \<and> \<not> sorted (map fst (incomplete (check_main (\<lambda>base url. base @ url) []
         [example_snapshot_row ''https://fbref.com/B'' ''Team1'',
          example_snapshot_row ''https://fbref.com/A'' ''Team1''])))"
  by code_simp

end
